theory Spec2Isabelle
  imports Complex_Main "HOL-Library.Log_Nat"
begin

section \<open>HRMS payslip generator: the computation of \<open>hrms.py\<close>\<close>

text \<open>
  The development follows \<open>src/hrms.py\<close>: the numeral localizer
  \<open>num_to_words_indian\<close>, the figures that \<open>create_payslip_pdf\<close> computes and
  draws (working days, earning lines, deduction lines, totals, net salary and its
  words), and the list \<open>months_to_process\<close> that \<open>main\<close> builds for one employee.

  Python values are read as follows. An \<open>int\<close> is a HOL \<open>int\<close> (\<open>//\<close> and \<open>%\<close> are
  \<open>div\<close> and \<open>mod\<close>, both rounding towards minus infinity). A \<open>float\<close> is an IEEE 754
  binary64 number: a finite value (the rational number it denotes), an infinity or
  NaN, and every arithmetic operation rounds its exact result to the nearest
  binary64 number. Every exception the modelled code can raise is a value of
  \<open>py_error\<close>.
\<close>

datatype py_error = ValueError | TypeError | IndexError | ZeroDivisionError | OverflowError

subsection \<open>Lists and strings of Python\<close>

text \<open>\<open>xs[i]\<close>: a negative index counts from the end, an index out of range raises.\<close>

definition py_index :: "'a list \<Rightarrow> int \<Rightarrow> py_error + 'a" where
  "py_index xs i =
     (if 0 \<le> i \<and> i < int (length xs) then Inr (xs ! nat i)
      else if i < 0 \<and> - int (length xs) \<le> i then Inr (xs ! nat (int (length xs) + i))
      else Inl IndexError)"

text \<open>\<open>sep.join(parts)\<close>\<close>

fun join :: "string \<Rightarrow> string list \<Rightarrow> string" where
  "join sep [] = []"
| "join sep [p] = p"
| "join sep (p # q # ps) = p @ sep @ join sep (q # ps)"

subsection \<open>The numeral localizer\<close>

definition ones :: "string list" where
  "ones = ['''', ''One'', ''Two'', ''Three'', ''Four'', ''Five'', ''Six'', ''Seven'',
           ''Eight'', ''Nine'', ''Ten'', ''Eleven'', ''Twelve'', ''Thirteen'',
           ''Fourteen'', ''Fifteen'', ''Sixteen'', ''Seventeen'', ''Eighteen'',
           ''Nineteen'']"

definition tens :: "string list" where
  "tens = ['''', '''', ''Twenty'', ''Thirty'', ''Forty'', ''Fifty'', ''Sixty'',
           ''Seventy'', ''Eighty'', ''Ninety'']"

text \<open>
  \<^verbatim>\<open>def two(n):
    if n < 20: return ones[n]
    else: return tens[n//10] + ("" if n%10==0 else " " + ones[n%10])\<close>
\<close>

definition two :: "int \<Rightarrow> py_error + string" where
  "two n =
     (if n < 20 then py_index ones n
      else case py_index tens (n div 10) of
             Inl e \<Rightarrow> Inl e
           | Inr t \<Rightarrow>
               (if n mod 10 = 0 then Inr (t @ '''')
                else case py_index ones (n mod 10) of
                       Inl e \<Rightarrow> Inl e
                     | Inr u \<Rightarrow> Inr (t @ ('' '' @ u))))"

text \<open>
  \<^verbatim>\<open>def three(n):
    s = ""
    if n >= 100:
        s += ones[n//100] + " Hundred"
        if n%100: s += " "
    if n%100: s += two(n%100)
    return s\<close>
\<close>

definition three :: "int \<Rightarrow> py_error + string" where
  "three n =
     (case (if n \<ge> 100
            then case py_index ones (n div 100) of
                   Inl e \<Rightarrow> Inl e
                 | Inr h \<Rightarrow>
                     (let s = '''' @ (h @ '' Hundred'')
                      in Inr (if n mod 100 \<noteq> 0 then s @ '' '' else s))
            else Inr '''') of
        Inl e \<Rightarrow> Inl e
      | Inr s \<Rightarrow>
          (if n mod 100 \<noteq> 0
           then case two (n mod 100) of Inl e \<Rightarrow> Inl e | Inr w \<Rightarrow> Inr (s @ w)
           else Inr s))"

text \<open>
  One \<open>if group: parts.append(three(group) + scale)\<close> step of the function body; the
  remainder group is appended with the empty scale.
\<close>

definition append_group :: "int \<Rightarrow> string \<Rightarrow> string list \<Rightarrow> py_error + string list" where
  "append_group g scale parts =
     (if g \<noteq> 0
      then case three g of Inl e \<Rightarrow> Inl e | Inr w \<Rightarrow> Inr (parts @ [w @ scale])
      else Inr parts)"

definition num_to_words_indian :: "int \<Rightarrow> py_error + string" where
  "num_to_words_indian n =
     (if n = 0 then Inr ''Zero''
      else
        let crore = n div 10000000 in
        case append_group crore '' Crore'' [] of
          Inl e \<Rightarrow> Inl e
        | Inr parts1 \<Rightarrow>
            let n1 = n mod 10000000; lakh = n1 div 100000 in
            case append_group lakh '' Lakh'' parts1 of
              Inl e \<Rightarrow> Inl e
            | Inr parts2 \<Rightarrow>
                let n2 = n1 mod 100000; thousand = n2 div 1000 in
                case append_group thousand '' Thousand'' parts2 of
                  Inl e \<Rightarrow> Inl e
                | Inr parts3 \<Rightarrow>
                    let n3 = n2 mod 1000 in
                    case append_group n3 '''' parts3 of
                      Inl e \<Rightarrow> Inl e
                    | Inr parts4 \<Rightarrow> Inr (join '' '' parts4))"

subsection \<open>Floats\<close>

text \<open>
  A float is a finite binary64 number, plus or minus infinity, or NaN. The sign of
  zero is not kept: no figure computed below depends on it.
\<close>

datatype pyfloat = F rat | PInf | NInf | NaN

text \<open>The integer nearest to a rational, a tie going to the even one.\<close>

definition round_half_even :: "rat \<Rightarrow> int" where
  "round_half_even r =
     (let f = \<lfloor>r\<rfloor>; d = r - of_int f
      in if d < 1 / 2 then f
         else if 1 / 2 < d then f + 1
         else if even f then f else f + 1)"

text \<open>
  The binary exponent of a rational \<open>x \<noteq> 0\<close>, that is the \<open>e\<close> with
  \<open>2 ^ e \<le> \<bar>x\<bar> < 2 ^ (e + 1)\<close>, from the bit lengths of numerator and denominator.
\<close>

definition exponent :: "rat \<Rightarrow> int" where
  "exponent x =
     (let (p, q) = quotient_of \<bar>x\<bar>; d = bitlen p - bitlen q
      in if 2 powi d \<le> \<bar>x\<bar> then d else d - 1)"

text \<open>
  Rounding to binary64, to nearest, ties to even: 53 significant bits, the least
  exponent -1022 (below it the spacing stays \<open>2 ^ -1074\<close>), and a result of magnitude
  \<open>2 ^ 1024\<close> or more becomes an infinity.
\<close>

definition to_float :: "rat \<Rightarrow> pyfloat" where
  "to_float x =
     (if x = 0 then F 0
      else
        let e = max (exponent x) (- 1022);
            ulp = 2 powi (e - 52);
            r = of_int (round_half_even (x / ulp)) * ulp
        in if 1024 \<le> exponent r then (if 0 < x then PInf else NInf) else F r)"

text \<open>\<open>a + b\<close>, \<open>a - b\<close>, \<open>a * b\<close> on floats.\<close>

fun fadd :: "pyfloat \<Rightarrow> pyfloat \<Rightarrow> pyfloat" where
  "fadd (F a) (F b) = to_float (a + b)"
| "fadd NaN _ = NaN"
| "fadd _ NaN = NaN"
| "fadd PInf NInf = NaN"
| "fadd NInf PInf = NaN"
| "fadd PInf _ = PInf"
| "fadd _ PInf = PInf"
| "fadd NInf _ = NInf"
| "fadd _ NInf = NInf"

fun fsub :: "pyfloat \<Rightarrow> pyfloat \<Rightarrow> pyfloat" where
  "fsub (F a) (F b) = to_float (a - b)"
| "fsub NaN _ = NaN"
| "fsub _ NaN = NaN"
| "fsub PInf PInf = NaN"
| "fsub NInf NInf = NaN"
| "fsub PInf _ = PInf"
| "fsub _ PInf = NInf"
| "fsub NInf _ = NInf"
| "fsub _ NInf = PInf"

fun fmul :: "pyfloat \<Rightarrow> pyfloat \<Rightarrow> pyfloat" where
  "fmul (F a) (F b) = to_float (a * b)"
| "fmul NaN _ = NaN"
| "fmul _ NaN = NaN"
| "fmul PInf (F b) = (if b = 0 then NaN else if 0 < b then PInf else NInf)"
| "fmul NInf (F b) = (if b = 0 then NaN else if 0 < b then NInf else PInf)"
| "fmul (F a) PInf = (if a = 0 then NaN else if 0 < a then PInf else NInf)"
| "fmul (F a) NInf = (if a = 0 then NaN else if 0 < a then NInf else PInf)"
| "fmul PInf PInf = PInf"
| "fmul NInf NInf = PInf"
| "fmul PInf NInf = NInf"
| "fmul NInf PInf = NInf"

text \<open>\<open>a / b\<close>: a zero divisor raises, whatever the dividend is.\<close>

fun fdiv :: "pyfloat \<Rightarrow> pyfloat \<Rightarrow> py_error + pyfloat" where
  "fdiv a (F b) =
     (if b = 0 then Inl ZeroDivisionError
      else case a of
             F x \<Rightarrow> Inr (to_float (x / b))
           | PInf \<Rightarrow> Inr (if 0 < b then PInf else NInf)
           | NInf \<Rightarrow> Inr (if 0 < b then NInf else PInf)
           | NaN \<Rightarrow> Inr NaN)"
| "fdiv a NaN = Inr NaN"
| "fdiv (F x) b = Inr (F 0)"
| "fdiv a b = Inr NaN"

text \<open>\<open>a > b\<close>: false as soon as one side is NaN.\<close>

fun fgt :: "pyfloat \<Rightarrow> pyfloat \<Rightarrow> bool" where
  "fgt (F a) (F b) = (b < a)"
| "fgt NaN _ = False"
| "fgt _ NaN = False"
| "fgt NInf _ = False"
| "fgt _ PInf = False"
| "fgt _ _ = True"

text \<open>
  \<open>int(round(x))\<close>: Python rounds a float to the nearest integer, a tie to the even
  one; \<open>round\<close> of NaN raises \<open>ValueError\<close>, of an infinity \<open>OverflowError\<close>.
\<close>

fun py_round :: "pyfloat \<Rightarrow> py_error + int" where
  "py_round (F r) = Inr (round_half_even r)"
| "py_round NaN = Inl ValueError"
| "py_round _ = Inl OverflowError"

text \<open>
  The figure that \<open>f"{x:,.2f}"\<close> prints for a finite float, in hundredths: the exact
  value of the float, rounded to two decimals, a tie to the even digit.
\<close>

definition hundredths :: "pyfloat \<Rightarrow> int option" where
  "hundredths x = (case x of F r \<Rightarrow> Some (round_half_even (100 * r)) | _ \<Rightarrow> None)"

subsection \<open>Spreadsheet cells and rows\<close>

text \<open>
  A cell of a row as \<open>pd.read_excel\<close> returns it: a number, given by the value
  written in the sheet (pandas holds it as a 64-bit integer or float, and \<open>float\<close>
  of it is that value rounded to binary64), NaN (an empty cell, or one of the texts
  pandas reads as missing, such as \<open>N/A\<close>), \<open>None\<close>, or any other text; other kinds
  of cell (dates, booleans) are not modelled. A row is a dictionary from column
  names to cells.
\<close>

datatype cell = CNum rat | CNaN | CNone | CStr string

type_synonym row = "string \<rightharpoonup> cell"

text \<open>
  What a text denotes to the builtin \<open>float\<close> is not code of the repository: it is a
  parameter, giving the number written (or an infinity or NaN), and \<open>None\<close> where
  \<open>float\<close> raises \<open>ValueError\<close>. \<open>float\<close> rounds that number to binary64.
\<close>

type_synonym parser = "string \<Rightarrow> pyfloat option"

text \<open>\<open>row.get(label, 0)\<close>\<close>

definition row_get :: "row \<Rightarrow> string \<Rightarrow> cell" where
  "row_get row label = (case row label of Some c \<Rightarrow> c | None \<Rightarrow> CNum 0)"

text \<open>\<open>float(c)\<close>\<close>

fun py_float :: "parser \<Rightarrow> cell \<Rightarrow> py_error + pyfloat" where
  "py_float parse (CNum x) = Inr (to_float x)"
| "py_float parse CNaN = Inr NaN"
| "py_float parse CNone = Inl TypeError"
| "py_float parse (CStr s) =
     (case parse s of
        None \<Rightarrow> Inl ValueError
      | Some (F x) \<Rightarrow> Inr (to_float x)
      | Some v \<Rightarrow> Inr v)"

text \<open>\<open>pd.notna(c)\<close>\<close>

fun notna :: "cell \<Rightarrow> bool" where
  "notna CNaN = False"
| "notna CNone = False"
| "notna _ = True"

subsection \<open>The figures of \<open>create_payslip_pdf\<close>\<close>

text \<open>\<open>float(c) if pd.notna(c) else 0.0\<close>, as lines 411, 431 and 444 read a cell.\<close>

definition float_if_notna :: "parser \<Rightarrow> cell \<Rightarrow> py_error + pyfloat" where
  "float_if_notna parse c = (if notna c then py_float parse c else Inr (F 0))"

text \<open>
  The same inside \<open>try: ... except Exception: amt_f = 0.0\<close>, as the two loops over
  the earning labels read a cell (lines 385-389 and 400-404).
\<close>

definition amt_f :: "parser \<Rightarrow> cell \<Rightarrow> pyfloat" where
  "amt_f parse amt = (case float_if_notna parse amt of Inl e \<Rightarrow> F 0 | Inr v \<Rightarrow> v)"

text \<open>
  Line 437: \<open>float(c) if pd.notna(c) and float(c) > 0 else 0.0\<close>, with \<open>c\<close> the PF
  cell.
\<close>

definition pf_amt :: "parser \<Rightarrow> cell \<Rightarrow> py_error + pyfloat" where
  "pf_amt parse c =
     (if notna c
      then case py_float parse c of
             Inl e \<Rightarrow> Inl e
           | Inr v \<Rightarrow> (if fgt v (F 0) then py_float parse c else Inr (F 0))
      else Inr (F 0))"

text \<open>
  Lines 326-331: both day counts are read inside one \<open>try\<close>; a \<open>ValueError\<close> or a
  \<open>TypeError\<close> from either sets both to 0.0.
\<close>

definition read_days :: "parser \<Rightarrow> row \<Rightarrow> py_error + pyfloat \<times> pyfloat" where
  "read_days parse row =
     (case (case py_float parse (row_get row ''Total Working Days'') of
              Inl e \<Rightarrow> Inl e
            | Inr twd \<Rightarrow>
                (case py_float parse (row_get row ''Actual Payable Days'') of
                   Inl e \<Rightarrow> Inl e
                 | Inr apd \<Rightarrow> Inr (twd, apd))) of
        Inl e \<Rightarrow> (if e = ValueError \<or> e = TypeError then Inr (F 0, F 0) else Inl e)
      | Inr days \<Rightarrow> Inr days)"

text \<open>
  Line 391:
  \<open>(amt_f / total_working_days) * actual_payable_days if total_working_days > 0 else 0\<close>
\<close>

definition prorated_amt :: "pyfloat \<Rightarrow> pyfloat \<Rightarrow> pyfloat \<Rightarrow> py_error + pyfloat" where
  "prorated_amt amt total_working_days actual_payable_days =
     (if fgt total_working_days (F 0)
      then case fdiv amt total_working_days of
             Inl e \<Rightarrow> Inl e
           | Inr q \<Rightarrow> Inr (fmul q actual_payable_days)
      else Inr (F 0))"

text \<open>
  A block of the page while it is drawn: the lines drawn so far (label and amount, in
  drawing order) and the running total.
\<close>

type_synonym block = "(string \<times> pyfloat) list \<times> pyfloat"

definition prorate_items :: "string list" where
  "prorate_items = [''Basic'', ''HRA'', ''Special Allowance'']"

definition non_prorate_items :: "string list" where
  "non_prorate_items = [''Medical Allowance'', ''Transport Allowance'',
     ''Professional Allowance'', ''Performance Pay'', ''Courier Reimb'']"

text \<open>\<open>for label in prorate_items: ...\<close> (lines 384-396)\<close>

fun prorate_loop ::
  "parser \<Rightarrow> row \<Rightarrow> pyfloat \<Rightarrow> pyfloat \<Rightarrow> string list \<Rightarrow> block \<Rightarrow> py_error + block" where
  "prorate_loop parse row twd apd [] blk = Inr blk"
| "prorate_loop parse row twd apd (label # labels) (drawn, total_earn) =
     (case prorated_amt (amt_f parse (row_get row label)) twd apd of
        Inl e \<Rightarrow> Inl e
      | Inr p \<Rightarrow>
          prorate_loop parse row twd apd labels
            (drawn @ [(label, p)], fadd total_earn p))"

text \<open>\<open>for label in non_prorate_items: ...\<close> (lines 399-409)\<close>

fun non_prorate_loop :: "parser \<Rightarrow> row \<Rightarrow> string list \<Rightarrow> block \<Rightarrow> block" where
  "non_prorate_loop parse row [] blk = blk"
| "non_prorate_loop parse row (label # labels) (drawn, total_earn) =
     non_prorate_loop parse row labels
       (drawn @ [(label, amt_f parse (row_get row label))],
        fadd total_earn (amt_f parse (row_get row label)))"

text \<open>The earnings block, lines 380-416.\<close>

definition earnings_block ::
  "parser \<Rightarrow> row \<Rightarrow> pyfloat \<Rightarrow> pyfloat \<Rightarrow> py_error + block" where
  "earnings_block parse row twd apd =
     (case prorate_loop parse row twd apd prorate_items ([], F 0) of
        Inl e \<Rightarrow> Inl e
      | Inr blk1 \<Rightarrow>
          (let (drawn, total_earn) = non_prorate_loop parse row non_prorate_items blk1
           in case float_if_notna parse (row_get row ''Performance Bonus'') of
                Inl e \<Rightarrow> Inl e
              | Inr pb_earn \<Rightarrow>
                  (if fgt pb_earn (F 0)
                   then Inr (drawn @ [(''Performance Bonus'', pb_earn)],
                             fadd total_earn pb_earn)
                   else Inr (drawn, total_earn))))"

text \<open>
  The deductions block, lines 427-449. The recovery line is drawn under the label
  \<open>Performance Bonus\<close>.
\<close>

definition deductions_block :: "parser \<Rightarrow> row \<Rightarrow> py_error + block" where
  "deductions_block parse row =
     (case float_if_notna parse (row_get row ''Professional Tax'') of
        Inl e \<Rightarrow> Inl e
      | Inr pt_amt \<Rightarrow>
          (let drawn1 = [(''Professional Tax'', pt_amt)];
               total1 = fadd (F 0) pt_amt
           in case pf_amt parse (row_get row ''PF'') of
                Inl e \<Rightarrow> Inl e
              | Inr pf \<Rightarrow>
                  (let (drawn2, total2) =
                         (if fgt pf (F 0)
                          then (drawn1 @ [(''PF (Provident Fund)'', pf)], fadd total1 pf)
                          else (drawn1, total1))
                   in case float_if_notna parse (row_get row ''Performance Bonus Recovery'') of
                        Inl e \<Rightarrow> Inl e
                      | Inr pb_recovery \<Rightarrow>
                          (if fgt pb_recovery (F 0)
                           then Inr (drawn2 @ [(''Performance Bonus'', pb_recovery)],
                                     fadd total2 pb_recovery)
                           else Inr (drawn2, total2)))))"

text \<open>
  Everything the page shows that is computed: the four day figures of the salary
  details table, the two blocks with their totals, the net salary and its words.
\<close>

record payslip =
  total_working_days :: pyfloat
  actual_payable_days :: pyfloat
  loss_of_pay_days :: pyfloat
  days_payable :: pyfloat
  earnings :: "(string \<times> pyfloat) list"
  total_earn :: pyfloat
  deductions :: "(string \<times> pyfloat) list"
  total_ded :: pyfloat
  net_salary :: pyfloat
  words :: string

definition create_payslip_pdf :: "parser \<Rightarrow> row \<Rightarrow> py_error + payslip" where
  "create_payslip_pdf parse row =
     (case read_days parse row of
        Inl e \<Rightarrow> Inl e
      | Inr (twd, apd) \<Rightarrow>
          (case earnings_block parse row twd apd of
             Inl e \<Rightarrow> Inl e
           | Inr (earn, t_earn) \<Rightarrow>
               (case deductions_block parse row of
                  Inl e \<Rightarrow> Inl e
                | Inr (ded, t_ded) \<Rightarrow>
                    (case py_round (fsub t_earn t_ded) of
                       Inl e \<Rightarrow> Inl e
                     | Inr net_int \<Rightarrow>
                         (case num_to_words_indian net_int of
                            Inl e \<Rightarrow> Inl e
                          | Inr w \<Rightarrow>
                              Inr \<lparr>total_working_days = twd,
                                   actual_payable_days = apd,
                                   loss_of_pay_days = fsub twd apd,
                                   days_payable = apd,
                                   earnings = earn,
                                   total_earn = t_earn,
                                   deductions = ded,
                                   total_ded = t_ded,
                                   net_salary = fsub t_earn t_ded,
                                   words = w @ '' only''\<rparr>)))))"

text \<open>
  The row that \<open>create_dummy_excel\<close> writes into the template (lines 71-101), as it
  is read back: the text \<open>N/A\<close> of the columns Sub Department and UAN is read as NaN.
\<close>

definition dummy_row :: row where
  "dummy_row = map_of
     [(''Employee ID'', CStr ''AA001''), (''FullName'', CStr ''Arun Kumar''),
      (''Date of Joining'', CStr ''27-08-2025''), (''Department'', CStr ''Design''),
      (''Sub Department'', CNaN), (''Designation'', CStr ''Graphic Designer''),
      (''Payment Mode'', CStr ''Bank Transfer''), (''Bank'', CStr ''ICICI Bank''),
      (''Bank IFSC'', CStr ''ICIC0000001''), (''Bank Account'', CStr ''9xx0100XXXXXXX''),
      (''PAN'', CStr ''XXXXKXXXXX''), (''UAN'', CNaN),
      (''PF Number'', CStr ''MOH/001/0001''), (''Email'', CStr ''arun@arudra.com''),
      (''Annual CTC'', CNum 578400), (''Basic'', CNum 23500), (''HRA'', CNum 11750),
      (''Medical Allowance'', CNum 4700), (''Transport Allowance'', CNum 1600),
      (''Special Allowance'', CNum 3100), (''Professional Allowance'', CNum 1175),
      (''Performance Pay'', CNum 1175), (''Courier Reimb'', CNum 1200),
      (''Total Working Days'', CNum 20), (''Actual Payable Days'', CNum 19),
      (''Professional Tax'', CNum 200), (''Performance Bonus'', CNum 1000),
      (''Performance Bonus Recovery'', CNum 0), (''PF'', CNum 500)]"

subsection \<open>The localizer as the specification words it\<close>

text \<open>
  Written from the specification, not from the code: a table of the words for 1 to 19
  and of the tens words, a group spelled with them and a \<open>Hundred\<close> part, the
  crore, lakh, thousand and remainder groups of a number, most significant first,
  the zero groups left out, each followed by its scale word, single spaces between.
\<close>

definition unit_words :: "string list" where
  "unit_words = [''One'', ''Two'', ''Three'', ''Four'', ''Five'', ''Six'', ''Seven'',
     ''Eight'', ''Nine'', ''Ten'', ''Eleven'', ''Twelve'', ''Thirteen'', ''Fourteen'',
     ''Fifteen'', ''Sixteen'', ''Seventeen'', ''Eighteen'', ''Nineteen'']"

definition decade_words :: "string list" where
  "decade_words = [''Twenty'', ''Thirty'', ''Forty'', ''Fifty'', ''Sixty'', ''Seventy'',
     ''Eighty'', ''Ninety'']"

definition spell_below_hundred :: "nat \<Rightarrow> string" where
  "spell_below_hundred k =
     (if k = 0 then ''''
      else if k < 20 then unit_words ! (k - 1)
      else decade_words ! (k div 10 - 2) @
           (if k mod 10 = 0 then '''' else '' '' @ unit_words ! (k mod 10 - 1)))"

definition spell_group :: "nat \<Rightarrow> string" where
  "spell_group g =
     (if g \<ge> 100
      then spell_below_hundred (g div 100) @ '' Hundred'' @
           (if g mod 100 = 0 then '''' else '' '' @ spell_below_hundred (g mod 100))
      else spell_below_hundred g)"

definition groups_of :: "nat \<Rightarrow> (nat \<times> string) list" where
  "groups_of n =
     [(n div 10000000, '' Crore''), ((n div 100000) mod 100, '' Lakh''),
      ((n div 1000) mod 100, '' Thousand''), (n mod 1000, '''')]"

fun spaced :: "string list \<Rightarrow> string" where
  "spaced [] = ''''"
| "spaced (w # ws) = w @ concat (map (\<lambda>v. '' '' @ v) ws)"

definition words_spec :: "nat \<Rightarrow> string" where
  "words_spec n =
     (if n = 0 then ''Zero''
      else spaced (map (\<lambda>(g, scale). spell_group g @ scale)
                       (filter (\<lambda>(g, scale). g \<noteq> 0) (groups_of n))))"

subsection \<open>Dates and the months to process\<close>

text \<open>
  A \<open>datetime\<close> (a pandas \<open>Timestamp\<close> alike): the calendar date and the time of day,
  in microseconds since midnight. Python only builds valid ones (\<open>valid_datetime\<close>);
  the range limits of the two Python types are not modelled.
\<close>

record datetime =
  year :: nat
  month :: nat
  day :: nat
  tod :: nat

definition is_leap :: "nat \<Rightarrow> bool" where
  "is_leap y = (if y mod 4 = 0 then (if y mod 100 = 0 then y mod 400 = 0 else True) else False)"

definition days_in_month :: "nat \<Rightarrow> nat \<Rightarrow> nat" where
  "days_in_month y m =
     (if m = 2 then (if is_leap y then 29 else 28)
      else if m = 4 \<or> m = 6 \<or> m = 9 \<or> m = 11 then 30
      else 31)"

definition valid_datetime :: "datetime \<Rightarrow> bool" where
  "valid_datetime dt =
     (1 \<le> month dt \<and> month dt \<le> 12 \<and> 1 \<le> day dt \<and>
      day dt \<le> days_in_month (year dt) (month dt) \<and> tod dt < 86400000000)"

text \<open>\<open>a <= b\<close> on datetimes: by date, then by time of day.\<close>

definition dt_le :: "datetime \<Rightarrow> datetime \<Rightarrow> bool" where
  "dt_le a b =
     (year a < year b \<or>
      (year a = year b \<and>
        (month a < month b \<or>
         (month a = month b \<and>
           (day a < day b \<or> (day a = day b \<and> tod a \<le> tod b))))))"

text \<open>\<open>dt + Timedelta(days=n)\<close>, one day at a time.\<close>

definition next_day :: "datetime \<Rightarrow> datetime" where
  "next_day dt =
     (if day dt < days_in_month (year dt) (month dt) then dt\<lparr>day := day dt + 1\<rparr>
      else if month dt < 12 then dt\<lparr>month := month dt + 1, day := 1\<rparr>
      else dt\<lparr>year := year dt + 1, month := 1, day := 1\<rparr>)"

fun plus_days :: "datetime \<Rightarrow> nat \<Rightarrow> datetime" where
  "plus_days dt 0 = dt"
| "plus_days dt (Suc n) = plus_days (next_day dt) n"

text \<open>
  The step of the loop in \<open>main\<close> (lines 571-572):
  \<^verbatim>\<open>next_month = start.replace(day=28) + pd.Timedelta(days=4)
start = next_month.replace(day=1)\<close>
\<close>

definition next_start :: "datetime \<Rightarrow> datetime" where
  "next_start start =
     (let next_month = plus_days (start\<lparr>day := 28\<rparr>) 4 in next_month\<lparr>day := 1\<rparr>)"

lemma days_in_month_bounds: "28 \<le> days_in_month y m" "days_in_month y m \<le> 31"
  by (simp_all add: days_in_month_def)

lemma days_in_month_cases:
  obtains "days_in_month y m = 28" | "days_in_month y m = 29"
  | "days_in_month y m = 30" | "days_in_month y m = 31"
  by (cases "m = 2"; cases "is_leap y"; cases "m = 4 \<or> m = 6 \<or> m = 9 \<or> m = 11")
    (simp_all add: days_in_month_def)

lemma next_day_rollover:
  "day dt = days_in_month (year dt) (month dt) \<Longrightarrow>
   next_day dt =
     (if month dt < 12 then dt\<lparr>month := month dt + 1, day := 1\<rparr>
      else dt\<lparr>year := year dt + 1, month := 1, day := 1\<rparr>)"
  by (simp add: next_day_def)

lemma small_day_within:
  "d \<le> 27 \<Longrightarrow> next_day (dt\<lparr>day := d\<rparr>) = dt\<lparr>day := d + 1\<rparr>"
  using days_in_month_bounds(1) [of "year dt" "month dt"] by (simp add: next_day_def)

lemma next_start_eq:
  "next_start dt =
     (if month dt < 12 then dt\<lparr>month := month dt + 1, day := 1\<rparr>
      else dt\<lparr>year := year dt + 1, month := 1, day := 1\<rparr>)"
proof -
  let ?r = "if month dt < 12 then dt\<lparr>month := month dt + 1, day := 1\<rparr>
      else dt\<lparr>year := year dt + 1, month := 1, day := 1\<rparr>"
  have roll: "next_day (dt\<lparr>day := days_in_month (year dt) (month dt)\<rparr>) = ?r"
    by (simp add: next_day_rollover)
  have r1: "next_day ?r = ?r\<lparr>day := 2\<rparr>" "next_day (?r\<lparr>day := 2\<rparr>) = ?r\<lparr>day := 3\<rparr>"
    "next_day (?r\<lparr>day := 3\<rparr>) = ?r\<lparr>day := 4\<rparr>"
    using small_day_within [of 1 ?r] small_day_within [of 2 ?r] small_day_within [of 3 ?r]
    by (simp_all split: if_splits)
  have up: "d < days_in_month (year dt) (month dt) \<Longrightarrow>
      next_day (dt\<lparr>day := d\<rparr>) = dt\<lparr>day := d + 1\<rparr>" for d
    by (simp add: next_day_def)
  have four: "plus_days x 4 = next_day (next_day (next_day (next_day x)))" for x
    by (simp add: eval_nat_numeral)
  have "(plus_days (dt\<lparr>day := 28\<rparr>) 4)\<lparr>day := 1\<rparr> = ?r"
  proof (cases rule: days_in_month_cases [of "year dt" "month dt"])
    case 1
    with roll have "next_day (dt\<lparr>day := 28\<rparr>) = ?r" by simp
    then show ?thesis unfolding four by (simp add: r1)
  next
    case 2
    with roll up [of 28] have "next_day (next_day (dt\<lparr>day := 28\<rparr>)) = ?r" by simp
    then show ?thesis unfolding four by (simp add: r1)
  next
    case 3
    with roll up [of 28] up [of 29]
    have "next_day (next_day (next_day (dt\<lparr>day := 28\<rparr>))) = ?r" by simp
    then show ?thesis unfolding four by (simp add: r1)
  next
    case 4
    with roll up [of 28] up [of 29] up [of 30]
    have "next_day (next_day (next_day (next_day (dt\<lparr>day := 28\<rparr>)))) = ?r" by simp
    then show ?thesis unfolding four by simp
  qed
  then show ?thesis by (simp add: next_start_def)
qed

text \<open>
  The loop of \<open>main\<close> (lines 569-572):
  \<^verbatim>\<open>while start <= end:
    months_to_process.append(start)
    ...\<close>
\<close>

function months_loop :: "datetime \<Rightarrow> datetime \<Rightarrow> datetime list \<Rightarrow> datetime list" where
  "months_loop start end_dt months =
     (if dt_le start end_dt then months_loop (next_start start) end_dt (months @ [start])
      else months)"
  by pat_completeness auto
termination
proof (relation "measure (\<lambda>(start, end_dt, months).
    (12 * year end_dt + 13) - (12 * year start + min (month start) 12))")
  show "wf (measure (\<lambda>(start, end_dt, months).
    (12 * year end_dt + 13) - (12 * year start + min (month start) 12)))"
    by simp
next
  fix start end_dt :: datetime and months :: "datetime list"
  assume le: "dt_le start end_dt"
  then have y: "year start \<le> year end_dt" by (auto simp: dt_le_def)
  have "12 * year start + min (month start) 12 <
        12 * year (next_start start) + min (month (next_start start)) 12"
    by (simp add: next_start_eq)
  moreover have "12 * year start + min (month start) 12 < 12 * year end_dt + 13"
    using y by simp
  ultimately show "((next_start start, end_dt, months @ [start]), (start, end_dt, months))
      \<in> measure (\<lambda>(start, end_dt, months).
          (12 * year end_dt + 13) - (12 * year start + min (month start) 12))"
    by simp
qed

definition months_to_process :: "bool \<Rightarrow> datetime \<Rightarrow> datetime \<Rightarrow> datetime list" where
  "months_to_process send_all_past_payslips date_of_joining now =
     (let start = date_of_joining\<lparr>day := 1\<rparr>;
          end_dt = now\<lparr>day := 1\<rparr>
      in if send_all_past_payslips then months_loop start end_dt [] else [end_dt])"

definition month_name :: "string list" where
  "month_name = ['''', ''January'', ''February'', ''March'', ''April'', ''May'', ''June'',
     ''July'', ''August'', ''September'', ''October'', ''November'', ''December'']"

definition pay_periods :: "datetime list \<Rightarrow> (string \<times> nat) list" where
  "pay_periods ds = map (\<lambda>d. (month_name ! month d, year d)) ds"

definition month_index :: "datetime \<Rightarrow> nat" where
  "month_index d = 12 * year d + month d - 1"

definition first_of_month :: "nat \<Rightarrow> nat \<Rightarrow> datetime" where
  "first_of_month t k = \<lparr>year = k div 12, month = k mod 12 + 1, day = 1, tod = t\<rparr>"

lemma dt_le_month_index:
  assumes "1 \<le> month s" "month s \<le> 12" "day s = 1"
    and "1 \<le> month e" "month e \<le> 12" "day e = 1" "tod s \<le> tod e"
  shows "dt_le s e \<longleftrightarrow> month_index s \<le> month_index e"
  using assms unfolding dt_le_def month_index_def by auto

lemma month_index_next_start:
  assumes "1 \<le> month s" "month s \<le> 12"
  shows "month_index (next_start s) = Suc (month_index s)"
    and "1 \<le> month (next_start s)" and "month (next_start s) \<le> 12"
    and "day (next_start s) = 1" and "tod (next_start s) = tod s"
  using assms by (simp_all add: next_start_eq month_index_def)

lemma first_of_month_index:
  assumes "1 \<le> month s" "month s \<le> 12" "day s = 1"
  shows "first_of_month (tod s) (month_index s) = s"
proof -
  from assms obtain k where k: "month s = Suc k" "k < 12"
    by (cases "month s") simp_all
  then have "month_index s = k + 12 * year s"
    by (simp add: month_index_def)
  with k assms(3) show ?thesis
    by (simp add: first_of_month_def)
qed

lemma months_loop_eq:
  assumes "1 \<le> month s" "month s \<le> 12" "day s = 1"
    and "1 \<le> month e" "month e \<le> 12" "day e = 1" "tod s \<le> tod e"
  shows "months_loop s e acc =
     acc @ map (first_of_month (tod s)) [month_index s ..< Suc (month_index e)]"
  using assms
proof (induction "Suc (month_index e) - month_index s" arbitrary: s acc)
  case 0
  then have "\<not> month_index s \<le> month_index e" by simp
  with 0 have "\<not> dt_le s e" by (simp add: dt_le_month_index)
  with \<open>\<not> month_index s \<le> month_index e\<close> show ?case by simp
next
  case (Suc n)
  then have le: "month_index s \<le> month_index e" by simp
  with Suc.prems have d: "dt_le s e" by (simp add: dt_le_month_index)
  note nx = month_index_next_start [OF Suc.prems(1,2)]
  have n: "n = Suc (month_index e) - month_index (next_start s)"
    using Suc.hyps(2) by (simp add: nx(1))
  have "months_loop (next_start s) e (acc @ [s]) =
      (acc @ [s]) @ map (first_of_month (tod (next_start s)))
        [month_index (next_start s) ..< Suc (month_index e)]"
    using Suc.prems by (intro Suc.hyps(1) [OF n] nx) (simp_all add: nx)
  then have "months_loop s e acc =
      acc @ s # map (first_of_month (tod s)) [Suc (month_index s) ..< Suc (month_index e)]"
    using d by (simp add: nx del: upt_Suc)
  also have "s # map (first_of_month (tod s)) [Suc (month_index s) ..< Suc (month_index e)] =
      map (first_of_month (tod s)) [month_index s ..< Suc (month_index e)]"
  proof -
    have "[month_index s ..< Suc (month_index e)] =
        month_index s # [Suc (month_index s) ..< Suc (month_index e)]"
      using le by (intro upt_conv_Cons) simp
    then show ?thesis
      using first_of_month_index [OF Suc.prems(1-3)] by (simp del: upt_Suc)
  qed
  finally show ?case .
qed

lemma months_to_process_eq:
  assumes "valid_datetime j" "valid_datetime now" "tod j \<le> tod now"
  shows "months_to_process True j now =
     map (first_of_month (tod j)) [month_index j ..< Suc (month_index now)]"
proof -
  have "months_loop (j\<lparr>day := 1\<rparr>) (now\<lparr>day := 1\<rparr>) [] =
      [] @ map (first_of_month (tod (j\<lparr>day := 1\<rparr>)))
        [month_index (j\<lparr>day := 1\<rparr>) ..< Suc (month_index (now\<lparr>day := 1\<rparr>))]"
    using assms by (intro months_loop_eq) (simp_all add: valid_datetime_def)
  then show ?thesis
    by (simp add: months_to_process_def month_index_def del: upt_Suc)
qed

subsection \<open>Facts on the numeral localizer\<close>

lemma ones_unit_words: "ones = '''' # unit_words"
  by (simp add: ones_def unit_words_def)

lemma tens_decade_words: "tens = '''' # '''' # decade_words"
  by (simp add: tens_def decade_words_def)

lemma length_ones: "length ones = 20"
  by (simp add: ones_def)

lemma length_tens: "length tens = 10"
  by (simp add: tens_def)

lemma py_index_nat: "m < length xs \<Longrightarrow> py_index xs (int m) = Inr (xs ! m)"
  by (simp add: py_index_def)

lemma py_index_beyond: "length xs \<le> m \<Longrightarrow> py_index xs (int m) = Inl IndexError"
  by (simp add: py_index_def)

lemma ones_nth: "ones ! m = (if m = 0 then '''' else unit_words ! (m - 1))"
  by (simp add: ones_unit_words nth_Cons')

lemma tens_nth: "2 \<le> m \<Longrightarrow> tens ! m = decade_words ! (m - 2)"
  by (simp add: tens_decade_words nth_Cons' numeral_2_eq_2)

lemma int_div_numeral: "int m div numeral k = int (m div numeral k)"
  by (simp add: zdiv_int)

lemma int_mod_numeral: "int m mod numeral k = int (m mod numeral k)"
  by (simp add: zmod_int)

lemma two_nat:
  assumes "m < 100"
  shows "two (int m) = Inr (spell_below_hundred m)"
proof (cases "m < 20")
  case True
  then show ?thesis
    by (simp add: two_def py_index_nat length_ones ones_nth spell_below_hundred_def)
next
  case False
  then have d: "2 \<le> m div 10" "m div 10 < 10" using assms by auto
  have u: "m mod 10 < 20" by simp
  from False d u show ?thesis
    by (simp add: two_def int_div_numeral int_mod_numeral py_index_nat length_ones
        length_tens tens_nth ones_nth spell_below_hundred_def)
qed

lemma three_nat:
  assumes "g < 2000"
  shows "three (int g) = Inr (spell_group g)"
proof -
  have h: "g div 100 < 20" using assms by simp
  have r: "g mod 100 < 100" by simp
  have sb: "100 \<le> g \<Longrightarrow> spell_below_hundred (g div 100) = ones ! (g div 100)"
    using h by (auto simp add: spell_below_hundred_def ones_nth)
  have sz: "spell_below_hundred 0 = ''''" by (simp add: spell_below_hundred_def)
  show ?thesis
  proof (cases "100 \<le> g")
    case True
    then show ?thesis using h sb
      by (simp add: three_def int_div_numeral int_mod_numeral py_index_nat length_ones
          two_nat [OF r] spell_group_def Let_def)
  next
    case False
    then have "g < 100" by simp
    then show ?thesis using False
      by (simp add: three_def int_div_numeral int_mod_numeral two_nat spell_group_def sz)
  qed
qed

lemma three_beyond:
  assumes "2000 \<le> g"
  shows "three (int g) = Inl IndexError"
proof -
  have "20 \<le> g div 100" using assms by simp
  then have "py_index ones (int (g div 100)) = Inl IndexError"
    by (simp add: py_index_beyond length_ones)
  then show ?thesis using assms
    by (simp add: three_def int_div_numeral)
qed

lemma join_spaced: "join '' '' ps = spaced ps"
  by (induction "'' ''" ps rule: join.induct) simp_all

lemma append_group_nat:
  "g < 2000 \<Longrightarrow>
   append_group (int g) scale parts =
     Inr (parts @ (if g \<noteq> 0 then [spell_group g @ scale] else []))"
  by (simp add: append_group_def three_nat)

lemma mod_div_group: "0 < a \<Longrightarrow> (m mod (a * b)) div a = (m div a) mod (b::nat)"
  by (simp add: mod_mult2_eq)

lemma lakh_group: "(m mod 10000000) div 100000 = (m div 100000) mod (100::nat)"
  using mod_div_group [of 100000 m 100] by simp

lemma thousand_group: "(m mod 10000000 mod 100000) div 1000 = (m div 1000) mod (100::nat)"
proof -
  have "m mod 10000000 mod 100000 = m mod 100000"
    by (rule mod_mod_cancel) simp
  then show ?thesis using mod_div_group [of 1000 m 100] by simp
qed

lemma remainder_group: "m mod 10000000 mod 100000 mod 1000 = m mod (1000::nat)"
proof -
  have "m mod 10000000 mod 100000 = m mod 100000"
    by (rule mod_mod_cancel) simp
  moreover have "m mod 100000 mod 1000 = m mod 1000"
    by (rule mod_mod_cancel) simp
  ultimately show ?thesis by simp
qed

definition group_part :: "nat \<Rightarrow> string \<Rightarrow> string list" where
  "group_part g scale = (if g \<noteq> 0 then [spell_group g @ scale] else [])"

lemma num_to_words_steps:
  assumes c: "m div 10000000 < 2000" and nz: "m \<noteq> 0"
  shows "num_to_words_indian (int m) =
     Inr (join '' ''
       ((((group_part (m div 10000000) '' Crore'') @
          group_part ((m div 100000) mod 100) '' Lakh'') @
          group_part ((m div 1000) mod 100) '' Thousand'') @
          group_part (m mod 1000) ''''))"
proof -
  have l: "(m div 100000) mod 100 < 2000"
    by (rule less_trans [OF mod_less_divisor]) simp_all
  have t: "(m div 1000) mod 100 < 2000"
    by (rule less_trans [OF mod_less_divisor]) simp_all
  have r: "m mod 1000 < 2000"
    by (rule less_trans [OF mod_less_divisor]) simp_all
  have 1: "append_group (int m div 10000000) '' Crore'' [] =
      Inr ([] @ group_part (m div 10000000) '' Crore'')"
    unfolding int_div_numeral group_part_def by (rule append_group_nat [OF c])
  have 2: "append_group (int m mod 10000000 div 100000) '' Lakh'' ps =
      Inr (ps @ group_part ((m div 100000) mod 100) '' Lakh'')" for ps
    unfolding int_div_numeral int_mod_numeral lakh_group group_part_def
    by (rule append_group_nat [OF l])
  have 3: "append_group (int m mod 10000000 mod 100000 div 1000) '' Thousand'' ps =
      Inr (ps @ group_part ((m div 1000) mod 100) '' Thousand'')" for ps
    unfolding int_div_numeral int_mod_numeral thousand_group group_part_def
    by (rule append_group_nat [OF t])
  have 4: "append_group (int m mod 10000000 mod 100000 mod 1000) '''' ps =
      Inr (ps @ group_part (m mod 1000) '''')" for ps
    unfolding int_mod_numeral remainder_group group_part_def
    by (rule append_group_nat [OF r])
  have z: "int m \<noteq> 0" using nz by simp
  show ?thesis
    unfolding num_to_words_indian_def Let_def 1 2 3 4 if_not_P [OF z] sum.case append_Nil ..
qed

lemma words_spec_parts:
  "m \<noteq> 0 \<Longrightarrow>
   words_spec m =
     spaced ((((group_part (m div 10000000) '' Crore'') @
          group_part ((m div 100000) mod 100) '' Lakh'') @
          group_part ((m div 1000) mod 100) '' Thousand'') @
          group_part (m mod 1000) '''')"
  unfolding words_spec_def groups_of_def group_part_def by simp

lemma num_to_words_nat:
  assumes "m < 20000000000"
  shows "num_to_words_indian (int m) = Inr (words_spec m)"
proof (cases "m = 0")
  case True
  then show ?thesis by (simp add: num_to_words_indian_def words_spec_def)
next
  case False
  have c: "m div 10000000 < 2000" using assms by simp
  show ?thesis
    unfolding num_to_words_steps [OF c False] words_spec_parts [OF False] join_spaced ..
qed

lemma num_to_words_beyond:
  assumes "20000000000 \<le> m"
  shows "num_to_words_indian (int m) = Inl IndexError"
proof -
  have "2000 \<le> m div 10000000" using assms by simp
  then have "three (int (m div 10000000)) = Inl IndexError" "m div 10000000 \<noteq> 0" "m \<noteq> 0"
    by (simp_all add: three_beyond)
  then show ?thesis
    by (simp add: num_to_words_indian_def Let_def int_div_numeral append_group_def)
qed

subsection \<open>Facts on the payslip figures\<close>

lemma to_float_zero: "to_float 0 = F 0"
  by (simp add: to_float_def)

lemma py_float_errors: "py_float parse c = Inl e \<Longrightarrow> e = ValueError \<or> e = TypeError"
  by (cases c) (auto split: option.splits pyfloat.splits)

lemma fdiv_positive: "fgt b (F 0) \<Longrightarrow> \<exists>q. fdiv a b = Inr q"
  by (cases b; cases a) auto

definition prorated_val :: "pyfloat \<Rightarrow> pyfloat \<Rightarrow> pyfloat \<Rightarrow> pyfloat" where
  "prorated_val amt twd apd =
     (case prorated_amt amt twd apd of Inl e \<Rightarrow> NaN | Inr v \<Rightarrow> v)"

lemma prorated_amt_val: "prorated_amt amt twd apd = Inr (prorated_val amt twd apd)"
proof (cases "fgt twd (F 0)")
  case True
  from fdiv_positive [OF this] obtain q where "fdiv amt twd = Inr q" ..
  with True show ?thesis
    by (simp add: prorated_val_def prorated_amt_def)
next
  case False
  then show ?thesis by (simp add: prorated_val_def prorated_amt_def)
qed

lemma prorate_loop_closed:
  "prorate_loop parse row twd apd labels (drawn, tot) =
     Inr (drawn @ map (\<lambda>l. (l, prorated_val (amt_f parse (row_get row l)) twd apd)) labels,
          foldl fadd tot
            (map (\<lambda>l. prorated_val (amt_f parse (row_get row l)) twd apd) labels))"
  by (induction labels arbitrary: drawn tot) (simp_all add: prorated_amt_val)

lemma non_prorate_loop_closed:
  "non_prorate_loop parse row labels (drawn, tot) =
     (drawn @ map (\<lambda>l. (l, amt_f parse (row_get row l))) labels,
      foldl fadd tot (map (\<lambda>l. amt_f parse (row_get row l)) labels))"
  by (induction labels arbitrary: drawn tot) simp_all

lemma earnings_block_sum:
  assumes "earnings_block parse row twd apd = Inr (earn, t_earn)"
  shows "t_earn = foldl fadd (F 0) (map snd earn)"
  using assms
  by (auto simp: earnings_block_def prorate_loop_closed non_prorate_loop_closed
      comp_def split: sum.splits if_splits)

lemma deductions_block_sum:
  assumes "deductions_block parse row = Inr (ded, t_ded)"
  shows "t_ded = foldl fadd (F 0) (map snd ded)"
  using assms
  by (auto simp: deductions_block_def Let_def split: sum.splits if_splits)

lemma fadd_finite: "fadd t x = F u \<Longrightarrow> \<exists>t' x'. t = F t' \<and> x = F x'"
  by (cases t; cases x) auto

lemma foldl_fadd_finite:
  "foldl fadd t xs = F s \<Longrightarrow> \<exists>t' es. t = F t' \<and> xs = map F es"
proof (induction xs arbitrary: t)
  case Nil
  then show ?case by simp
next
  case (Cons x xs)
  then obtain u es where u: "fadd t x = F u" "xs = map F es"
    by fastforce
  from fadd_finite [OF u(1)] obtain t' x' where "t = F t'" "x = F x'"
    by blast
  with u(2) have "t = F t' \<and> x # xs = map F (x' # es)"
    by simp
  then show ?case by (intro exI)
qed

lemma fsub_finite:
  "fsub a b = F r \<Longrightarrow> \<exists>x y. a = F x \<and> b = F y \<and> to_float (x - y) = F r"
  by (cases a; cases b) auto

lemma py_round_finite: "py_round x = Inr n \<Longrightarrow> \<exists>r. x = F r \<and> n = round_half_even r"
  by (cases x) auto

lemma create_payslip_pdf_parts:
  assumes "create_payslip_pdf parse row = Inr p"
  shows "\<exists>net_int w.
     read_days parse row = Inr (total_working_days p, actual_payable_days p) \<and>
     earnings_block parse row (total_working_days p) (actual_payable_days p) =
       Inr (earnings p, total_earn p) \<and>
     deductions_block parse row = Inr (deductions p, total_ded p) \<and>
     net_salary p = fsub (total_earn p) (total_ded p) \<and>
     loss_of_pay_days p = fsub (total_working_days p) (actual_payable_days p) \<and>
     days_payable p = actual_payable_days p \<and>
     py_round (net_salary p) = Inr net_int \<and>
     num_to_words_indian net_int = Inr w \<and>
     words p = w @ '' only''"
  using assms unfolding create_payslip_pdf_def
  by (auto split: sum.splits prod.splits)

lemma round_half_even_nearest: "\<bar>of_int (round_half_even r) - r\<bar> \<le> 1 / 2"
proof -
  have "of_int \<lfloor>r\<rfloor> \<le> r" "r < of_int \<lfloor>r\<rfloor> + 1" by linarith+
  then show ?thesis
    by (auto simp: round_half_even_def Let_def)
qed

lemma round_half_even_tie:
  assumes "\<bar>of_int (round_half_even r) - r\<bar> = 1 / 2"
  shows "even (round_half_even r)"
proof -
  have b: "of_int \<lfloor>r\<rfloor> \<le> r" "r < of_int \<lfloor>r\<rfloor> + 1" by linarith+
  show ?thesis
  proof (cases "r - of_int \<lfloor>r\<rfloor> = 1 / 2")
    case True
    then show ?thesis by (simp add: round_half_even_def Let_def)
  next
    case False
    with assms b show ?thesis
      by (auto simp: round_half_even_def Let_def split: if_splits)
  qed
qed

lemma pf_amt_float_if_notna:
  assumes "pf_amt parse c = Inr v"
  shows "\<exists>x. float_if_notna parse c = Inr x \<and> v = (if fgt x (F 0) then x else F 0)"
  using assms by (auto simp: pf_amt_def float_if_notna_def split: if_splits sum.splits)

lemma read_days_failure:
  assumes "isl (py_float parse (row_get row ''Total Working Days'')) \<or>
           isl (py_float parse (row_get row ''Actual Payable Days''))"
  shows "read_days parse row = Inr (F 0, F 0)"
proof (cases "py_float parse (row_get row ''Total Working Days'')")
  case (Inl e)
  with py_float_errors [OF Inl] show ?thesis by (auto simp: read_days_def)
next
  case (Inr twd)
  with assms obtain e where e: "py_float parse (row_get row ''Actual Payable Days'') = Inl e"
    by (cases "py_float parse (row_get row ''Actual Payable Days'')") auto
  with py_float_errors [OF e] Inr show ?thesis by (auto simp: read_days_def)
qed

text \<open>The row with 0 in both day cells.\<close>

definition zero_days :: "row \<Rightarrow> row" where
  "zero_days row = row(''Total Working Days'' \<mapsto> CNum 0, ''Actual Payable Days'' \<mapsto> CNum 0)"

lemma row_get_zero_days:
  "l \<noteq> ''Total Working Days'' \<Longrightarrow> l \<noteq> ''Actual Payable Days'' \<Longrightarrow>
   row_get (zero_days row) l = row_get row l"
  by (simp add: row_get_def zero_days_def)

lemma read_days_zero_days: "read_days parse (zero_days row) = Inr (F 0, F 0)"
  by (simp add: read_days_def row_get_def zero_days_def to_float_zero)

lemma earnings_block_zero_days:
  "earnings_block parse (zero_days row) twd apd = earnings_block parse row twd apd"
  by (simp add: earnings_block_def prorate_loop_closed non_prorate_loop_closed
      prorate_items_def non_prorate_items_def row_get_zero_days)

lemma deductions_block_zero_days:
  "deductions_block parse (zero_days row) = deductions_block parse row"
proof -
  have same: "row_get (zero_days row) ''Professional Tax'' = row_get row ''Professional Tax''"
    "row_get (zero_days row) ''PF'' = row_get row ''PF''"
    "row_get (zero_days row) ''Performance Bonus Recovery'' =
       row_get row ''Performance Bonus Recovery''"
    by (simp_all add: row_get_zero_days)
  show ?thesis unfolding deductions_block_def same ..
qed

lemma create_payslip_pdf_zero_days:
  "read_days parse row = Inr (F 0, F 0) \<Longrightarrow>
   create_payslip_pdf parse row = create_payslip_pdf parse (zero_days row)"
  unfolding create_payslip_pdf_def read_days_zero_days earnings_block_zero_days
    deductions_block_zero_days
  by simp

lemma prorated_val_no_days: "prorated_val amt (F 0) apd = F 0"
  by (simp add: prorated_val_def prorated_amt_def)

lemma earnings_block_lines:
  assumes "earnings_block parse row twd apd = Inr (earn, t_earn)"
  shows "\<exists>pb. float_if_notna parse (row_get row ''Performance Bonus'') = Inr pb \<and>
     earn =
       map (\<lambda>l. (l, prorated_val (amt_f parse (row_get row l)) twd apd)) prorate_items @
       map (\<lambda>l. (l, amt_f parse (row_get row l))) non_prorate_items @
       (if fgt pb (F 0) then [(''Performance Bonus'', pb)] else [])"
  using assms
  by (auto simp: earnings_block_def prorate_loop_closed non_prorate_loop_closed
      split: sum.splits if_splits)

text \<open>The error of one rounding to binary64, and of two in a row.\<close>

lemma bitlen_powi_bounds:
  assumes "0 < (n::int)"
  shows "(2::rat) powi (bitlen n - 1) \<le> of_int n" "(of_int n :: rat) < 2 powi bitlen n"
proof -
  from assms have b: "1 \<le> bitlen n"
    using bitlen_eq_zero_iff [of n] bitlen_nonneg [of n] by linarith
  from bitlen_bounds [OF assms] have
    lo: "(2::int) ^ nat (bitlen n - 1) \<le> n" and hi: "n < (2::int) ^ nat (bitlen n)"
    by simp_all
  from lo have "(of_int ((2::int) ^ nat (bitlen n - 1)) :: rat) \<le> of_int n"
    by (simp only: of_int_le_iff)
  then show "(2::rat) powi (bitlen n - 1) \<le> of_int n"
    using b by (simp add: power_int_def)
  from hi have "(of_int n :: rat) < of_int ((2::int) ^ nat (bitlen n))"
    by (simp only: of_int_less_iff)
  then show "(of_int n :: rat) < 2 powi bitlen n"
    using b by (simp add: power_int_def)
qed

lemma exponent_bounds:
  assumes "x \<noteq> 0"
  shows "2 powi exponent x \<le> \<bar>x\<bar>" "\<bar>x\<bar> < 2 powi (exponent x + 1)"
proof -
  obtain p q where pq: "quotient_of \<bar>x\<bar> = (p, q)" by (cases "quotient_of \<bar>x\<bar>")
  then have q: "0 < q" and x: "\<bar>x\<bar> = of_int p / of_int q"
    by (simp_all add: quotient_of_denom_pos quotient_of_div)
  from assms have "0 < \<bar>x\<bar>" by simp
  with x q have p: "0 < p" by (simp add: zero_less_divide_iff)
  note bp = bitlen_powi_bounds [OF p] and bq = bitlen_powi_bounds [OF q]
  let ?d = "bitlen p - bitlen q"
  have pos: "(0::rat) < 2 powi k" for k by simp
  have "\<bar>x\<bar> < 2 powi bitlen p / 2 powi (bitlen q - 1)"
    unfolding x using p q bp bq pos by (intro frac_less) simp_all
  also have "\<dots> = 2 powi (?d + 1)"
    by (simp add: power_int_diff [symmetric] algebra_simps)
  finally have hi: "\<bar>x\<bar> < 2 powi (?d + 1)" .
  have "2 powi (bitlen p - 1) / 2 powi bitlen q < \<bar>x\<bar>"
    unfolding x using p q bp bq pos [of "bitlen p - 1"]
    by (intro frac_less2) simp_all
  also have "2 powi (bitlen p - 1) / 2 powi bitlen q = (2::rat) powi (?d - 1)"
    by (simp add: power_int_diff [symmetric] algebra_simps)
  finally have lo: "2 powi (?d - 1) < \<bar>x\<bar>" .
  have e: "exponent x = (if 2 powi ?d \<le> \<bar>x\<bar> then ?d else ?d - 1)"
    by (simp add: exponent_def pq)
  show "2 powi exponent x \<le> \<bar>x\<bar>"
    using lo by (simp add: e)
  show "\<bar>x\<bar> < 2 powi (exponent x + 1)"
    using hi by (simp add: e)
qed

lemma to_float_error:
  assumes r: "to_float x = F r" and n: "- 1022 \<le> exponent x"
  shows "\<bar>r - x\<bar> \<le> 2 powi (- 53) * \<bar>x\<bar>"
proof (cases "x = 0")
  case True
  with r show ?thesis by (simp add: to_float_def)
next
  case False
  let ?ulp = "(2::rat) powi (exponent x - 52)"
  let ?m = "round_half_even (x / ?ulp)"
  have ulp: "0 < ?ulp" by simp
  from r False n have r': "r = of_int ?m * ?ulp"
    by (simp add: to_float_def Let_def max_def split: if_splits)
  have "\<bar>of_int ?m - x / ?ulp\<bar> \<le> 1 / 2" by (rule round_half_even_nearest)
  then have "\<bar>of_int ?m - x / ?ulp\<bar> * ?ulp \<le> 1 / 2 * ?ulp"
    using ulp by (intro mult_right_mono) simp_all
  moreover have "\<bar>of_int ?m - x / ?ulp\<bar> * ?ulp = \<bar>r - x\<bar>"
  proof -
    have "\<bar>of_int ?m - x / ?ulp\<bar> * ?ulp = \<bar>(of_int ?m - x / ?ulp) * ?ulp\<bar>"
      using ulp by (simp add: abs_mult)
    also have "(of_int ?m - x / ?ulp) * ?ulp = r - x"
      using ulp by (simp add: r' algebra_simps)
    finally show ?thesis .
  qed
  ultimately have "\<bar>r - x\<bar> \<le> 1 / 2 * ?ulp" by simp
  also have "1 / 2 * ?ulp = 2 powi (- 53) * 2 powi exponent x"
  proof -
    have h1: "(2::rat) powi (- 1 + (exponent x - 52)) = 2 powi (- 1) * ?ulp"
      by (rule power_int_add) simp
    have h2: "(2::rat) powi (- 53 + exponent x) = 2 powi (- 53) * 2 powi exponent x"
      by (rule power_int_add) simp
    have h3: "- 1 + (exponent x - 52) = - 53 + exponent x" by simp
    have "1 / 2 * ?ulp = 2 powi (- 1) * ?ulp" by simp
    also have "\<dots> = 2 powi (- 1 + (exponent x - 52))" by (rule h1 [symmetric])
    also have "\<dots> = 2 powi (- 53 + exponent x)" by (simp only: h3)
    also have "\<dots> = 2 powi (- 53) * 2 powi exponent x" by (rule h2)
    finally show ?thesis .
  qed
  also have "\<dots> \<le> 2 powi (- 53) * \<bar>x\<bar>"
    using exponent_bounds(1) [OF False] by (intro mult_left_mono) simp_all
  finally show ?thesis .
qed

lemma two_roundings:
  fixes u q A v d :: rat
  assumes u: "0 \<le> u" and q: "\<bar>q - A\<bar> \<le> u * \<bar>A\<bar>" and v: "\<bar>v - q * d\<bar> \<le> u * \<bar>q * d\<bar>"
  shows "\<bar>v - A * d\<bar> \<le> (2 * u + u * u) * \<bar>A * d\<bar>"
proof -
  have "\<bar>q\<bar> \<le> \<bar>A\<bar> + \<bar>q - A\<bar>" by simp
  with q have qa: "\<bar>q\<bar> \<le> (1 + u) * \<bar>A\<bar>" by (simp add: algebra_simps)
  have d0: "0 \<le> \<bar>d\<bar>" by simp
  have "\<bar>v - A * d\<bar> \<le> \<bar>v - q * d\<bar> + \<bar>q * d - A * d\<bar>" by simp
  also have "\<bar>q * d - A * d\<bar> = \<bar>q - A\<bar> * \<bar>d\<bar>"
    by (simp add: abs_mult [symmetric] algebra_simps)
  also have "\<bar>v - q * d\<bar> + \<bar>q - A\<bar> * \<bar>d\<bar> \<le> u * (\<bar>q\<bar> * \<bar>d\<bar>) + (u * \<bar>A\<bar>) * \<bar>d\<bar>"
    using v mult_right_mono [OF q d0] by (simp add: abs_mult)
  also have "\<dots> \<le> u * (((1 + u) * \<bar>A\<bar>) * \<bar>d\<bar>) + (u * \<bar>A\<bar>) * \<bar>d\<bar>"
    using mult_left_mono [OF mult_right_mono [OF qa d0] u] by simp
  also have "\<dots> = (2 * u + u * u) * \<bar>A * d\<bar>"
    by (simp add: abs_mult algebra_simps)
  finally show ?thesis .
qed

subsection \<open>Claims on the numeral localizer\<close>

text \<open>
  Claim C5, as amended. For a non-negative integer the localizer returns a word
  string exactly when the number is below 20,000,000,000: from there on the crore
  group is 2000 or more, its hundreds count is no index of the twenty-entry table
  \<open>ones\<close>, and the call raises \<open>IndexError\<close>.
\<close>

theorem num_to_words_indian_returns:
  "0 \<le> n \<Longrightarrow>
   (if n < 20000000000 then \<exists>s. num_to_words_indian n = Inr s
    else num_to_words_indian n = Inl IndexError)"
proof -
  assume "0 \<le> n"
  then obtain m where n: "n = int m" using nonneg_int_cases by blast
  show ?thesis
    using num_to_words_nat [of m] num_to_words_beyond [of m] by (simp add: n)
qed

theorem num_to_words_indian_returns_witness:
  "(0::int) \<le> 47175 \<and> (\<exists>s. num_to_words_indian 47175 = Inr s)"
  using num_to_words_indian_returns [of 47175] by simp

text \<open>
  Claim C5 as stated (every non-negative integer is accepted) fails at
  20,000,000,000, the first number whose crore group is 2000.
\<close>

theorem num_to_words_indian_index_error:
  "num_to_words_indian 20000000000 = Inl IndexError"
  by (simp add: num_to_words_indian_def append_group_def three_def py_index_def ones_def Let_def)

text \<open>
  Claim C6, as amended. Zero is spelled \<open>Zero\<close>, and every number from 1 up to, but
  not including, 20,000,000,000 is spelled as the specification words it
  (\<open>words_spec\<close>): crore, lakh, thousand and remainder groups, most significant
  first, zero groups omitted, each group spelled with the tables and a \<open>Hundred\<close>
  part, its scale word directly after it, single spaces between.
\<close>

theorem num_to_words_indian_spec:
  "0 \<le> n \<Longrightarrow> n < 20000000000 \<Longrightarrow> num_to_words_indian n = Inr (words_spec (nat n))"
proof -
  assume "0 \<le> n" and b: "n < 20000000000"
  then obtain m where n: "n = int m" using nonneg_int_cases by blast
  with b have "m < 20000000000" by simp
  then show ?thesis using num_to_words_nat [of m] by (simp add: n)
qed

theorem num_to_words_indian_spec_witness:
  "(0::int) \<le> 123456789 \<and> (123456789::int) < 20000000000 \<and>
   num_to_words_indian 123456789 =
     Inr ''Twelve Crore Thirty Four Lakh Fifty Six Thousand Seven Hundred Eighty Nine''"
  using num_to_words_indian_spec [of 123456789]
  by (simp add: words_spec_def groups_of_def spell_group_def spell_below_hundred_def
      unit_words_def decade_words_def)

text \<open>
  Claim C6 as stated (for every positive number) fails at 25,000,000,000: the code
  raises, so it returns no spelling at all.
\<close>

theorem num_to_words_indian_spec_fails:
  "num_to_words_indian 25000000000 = Inl IndexError \<and>
   num_to_words_indian 25000000000 \<noteq> Inr (words_spec (nat 25000000000))"
  by (simp add: num_to_words_indian_def append_group_def three_def py_index_def ones_def Let_def)

subsection \<open>Examples for the payslip figures\<close>

text \<open>
  The template row as \<open>create_payslip_pdf\<close> computes it, whatever \<open>float\<close> makes of
  texts (no cell that is read holds one), and four variants of it: 21 working days;
  a PF of 499; a Professional Tax of 200.1; the text \<open>abc\<close> in the Total Working
  Days cell.
\<close>

definition dummy_payslip :: payslip where
  "dummy_payslip =
     \<lparr>total_working_days = F 20, actual_payable_days = F 19,
      loss_of_pay_days = F 1, days_payable = F 19,
      earnings =
        [(''Basic'', F 22325), (''HRA'', F (22325 / 2)), (''Special Allowance'', F 2945),
         (''Medical Allowance'', F 4700), (''Transport Allowance'', F 1600),
         (''Professional Allowance'', F 1175), (''Performance Pay'', F 1175),
         (''Courier Reimb'', F 1200), (''Performance Bonus'', F 1000)],
      total_earn = F (94565 / 2),
      deductions = [(''Professional Tax'', F 200), (''PF (Provident Fund)'', F 500)],
      total_ded = F 700,
      net_salary = F (93165 / 2),
      words = ''Forty Six Thousand Five Hundred Eighty Two only''\<rparr>"

lemma create_payslip_pdf_dummy:
  "create_payslip_pdf parse dummy_row = Inr dummy_payslip"
  by code_simp

definition days21_payslip :: payslip where
  "days21_payslip =
     \<lparr>total_working_days = F 21, actual_payable_days = F 19,
      loss_of_pay_days = F 2, days_payable = F 19,
      earnings =
        [(''Basic'', F (730553484824381 / 34359738368)),
         (''HRA'', F (730553484824381 / 68719476736)),
         (''Special Allowance'', F (770967081857219 / 274877906944)),
         (''Medical Allowance'', F 4700), (''Transport Allowance'', F 1600),
         (''Professional Allowance'', F 1175), (''Performance Pay'', F 1175),
         (''Courier Reimb'', F 1200), (''Performance Bonus'', F 1000)],
      total_earn = F (391251068440381 / 8589934592),
      deductions = [(''Professional Tax'', F 200), (''PF (Provident Fund)'', F 500)],
      total_ded = F 700,
      net_salary = F (385238114225981 / 8589934592),
      words = ''Forty Four Thousand Eight Hundred Forty Eight only''\<rparr>"

lemma create_payslip_pdf_days21:
  "create_payslip_pdf parse (dummy_row(''Total Working Days'' \<mapsto> CNum 21)) =
     Inr days21_payslip"
  by code_simp

definition pf499_payslip :: payslip where
  "pf499_payslip =
     dummy_payslip\<lparr>
       deductions := [(''Professional Tax'', F 200), (''PF (Provident Fund)'', F 499)],
       total_ded := F 699,
       net_salary := F (93167 / 2),
       words := ''Forty Six Thousand Five Hundred Eighty Four only''\<rparr>"

lemma create_payslip_pdf_pf499:
  "create_payslip_pdf parse (dummy_row(''PF'' \<mapsto> CNum 499)) = Inr pf499_payslip"
  by code_simp

definition tax2001_payslip :: payslip where
  "tax2001_payslip =
     dummy_payslip\<lparr>
       deductions :=
         [(''Professional Tax'', F (7040392854975283 / 35184372088832)),
          (''PF (Provident Fund)'', F 500)],
       total_ded := F (6158144724847821 / 8796093022208),
       net_salary := F (6402236306214093 / 137438953472)\<rparr>"

lemma create_payslip_pdf_tax2001:
  "create_payslip_pdf parse (dummy_row(''Professional Tax'' \<mapsto> CNum (2001 / 10))) =
     Inr tax2001_payslip"
  by code_simp

definition no_days_payslip :: payslip where
  "no_days_payslip =
     \<lparr>total_working_days = F 0, actual_payable_days = F 0,
      loss_of_pay_days = F 0, days_payable = F 0,
      earnings =
        [(''Basic'', F 0), (''HRA'', F 0), (''Special Allowance'', F 0),
         (''Medical Allowance'', F 4700), (''Transport Allowance'', F 1600),
         (''Professional Allowance'', F 1175), (''Performance Pay'', F 1175),
         (''Courier Reimb'', F 1200), (''Performance Bonus'', F 1000)],
      total_earn = F 10850,
      deductions = [(''Professional Tax'', F 200), (''PF (Provident Fund)'', F 500)],
      total_ded = F 700,
      net_salary = F 10150,
      words = ''Ten Thousand One Hundred Fifty only''\<rparr>"

lemma create_payslip_pdf_no_days:
  "create_payslip_pdf (parse(''abc'' := None))
     (dummy_row(''Total Working Days'' \<mapsto> CStr ''abc'')) = Inr no_days_payslip"
  by code_simp

lemma text_days_cell:
  "isl (py_float (parse(''abc'' := None))
     (row_get (dummy_row(''Total Working Days'' \<mapsto> CStr ''abc'')) ''Total Working Days''))"
  by code_simp

text \<open>
  The two-decimal figures printed for the row with 21 working days: the nine earning
  lines add up to 45,547.61, the total printed under them is 45,547.62.
\<close>

lemma printed_lines_do_not_add_up:
  "map (\<lambda>(label, amount). hundredths amount) (earnings days21_payslip) =
     map Some [2126190, 1063095, 280476, 470000, 160000, 117500, 117500, 120000, 100000] \<and>
   sum_list [2126190, 1063095, 280476, 470000, 160000, 117500, 117500, 120000, 100000] =
     (4554761 :: int) \<and>
   hundredths (total_earn days21_payslip) = Some 4554762"
  by code_simp

text \<open>
  A net salary halfway between two integers as a float, though the exact difference
  is not: Python's \<open>round\<close> acts on the float.
\<close>

definition tie_payslip :: payslip where
  "tie_payslip =
     \<lparr>total_working_days = F 0, actual_payable_days = F 0,
      loss_of_pay_days = F 0, days_payable = F 0,
      earnings =
        [(''Basic'', F 0), (''HRA'', F 0), (''Special Allowance'', F 0),
         (''Medical Allowance'', F (2000003 / 2)), (''Transport Allowance'', F 0),
         (''Professional Allowance'', F 0), (''Performance Pay'', F 0),
         (''Courier Reimb'', F 0)],
      total_earn = F (2000003 / 2),
      deductions =
        [(''Professional Tax'', F (4951760157141521 / 4951760157141521099596496896))],
      total_ded = F (4951760157141521 / 4951760157141521099596496896),
      net_salary = F (2000003 / 2),
      words = ''Ten Lakh Two only''\<rparr>"

lemma tie_is_rounded_on_the_float:
  "create_payslip_pdf parse
     [''Employee ID'' \<mapsto> CStr ''AA001'', ''FullName'' \<mapsto> CStr ''Arun Kumar'',
      ''Medical Allowance'' \<mapsto> CNum (2000003 / 2),
      ''Professional Tax'' \<mapsto> CNum (1 / 1000000000000)] = Inr tie_payslip"
  by code_simp

text \<open>The template row with the text \<open>abc\<close> in the Basic cell: the line is 0.\<close>

definition basic_abc_payslip :: payslip where
  "basic_abc_payslip =
     dummy_payslip\<lparr>
       earnings :=
         [(''Basic'', F 0), (''HRA'', F (22325 / 2)), (''Special Allowance'', F 2945),
          (''Medical Allowance'', F 4700), (''Transport Allowance'', F 1600),
          (''Professional Allowance'', F 1175), (''Performance Pay'', F 1175),
          (''Courier Reimb'', F 1200), (''Performance Bonus'', F 1000)],
       total_earn := F (49915 / 2),
       net_salary := F (48515 / 2),
       words := ''Twenty Four Thousand Two Hundred Fifty Eight only''\<rparr>"

subsection \<open>Claims on the payslip figures\<close>

text \<open>
  Claim C1, as amended. In every payslip that is produced, the total drawn under
  the earnings is the sum of the earning amounts drawn, added one by one in drawing
  order starting from 0.0, each addition rounded to binary64, and nothing else
  enters it; likewise the total drawn under the deductions; and every amount drawn
  is a finite number. The amounts are the values handed to the two-decimal
  formatter.
\<close>

theorem totals_are_running_sums:
  assumes "create_payslip_pdf parse row = Inr p"
  shows "total_earn p = foldl fadd (F 0) (map snd (earnings p)) \<and>
     total_ded p = foldl fadd (F 0) (map snd (deductions p)) \<and>
     (\<exists>es ds. map snd (earnings p) = map F es \<and> map snd (deductions p) = map F ds)"
proof -
  from create_payslip_pdf_parts [OF assms] obtain net_int where
    e: "earnings_block parse row (total_working_days p) (actual_payable_days p) =
          Inr (earnings p, total_earn p)" and
    d: "deductions_block parse row = Inr (deductions p, total_ded p)" and
    n: "net_salary p = fsub (total_earn p) (total_ded p)" and
    r: "py_round (net_salary p) = Inr net_int"
    by blast
  note se = earnings_block_sum [OF e] and sd = deductions_block_sum [OF d]
  from py_round_finite [OF r] obtain v where "net_salary p = F v" by blast
  with n have "fsub (total_earn p) (total_ded p) = F v" by simp
  from fsub_finite [OF this] obtain x y where
    xy: "total_earn p = F x" "total_ded p = F y"
    by blast
  from se xy(1) have "foldl fadd (F 0) (map snd (earnings p)) = F x" by simp
  from foldl_fadd_finite [OF this] obtain es where
    es: "map snd (earnings p) = map F es" by blast
  from sd xy(2) have "foldl fadd (F 0) (map snd (deductions p)) = F y" by simp
  from foldl_fadd_finite [OF this] obtain ds where
    ds: "map snd (deductions p) = map F ds" by blast
  from se sd es ds show ?thesis by blast
qed

theorem totals_are_running_sums_witness:
  "\<forall>parse.
     create_payslip_pdf parse (dummy_row(''Total Working Days'' \<mapsto> CNum 21)) =
       Inr days21_payslip \<and>
     total_earn days21_payslip = foldl fadd (F 0) (map snd (earnings days21_payslip)) \<and>
     total_ded days21_payslip = foldl fadd (F 0) (map snd (deductions days21_payslip)) \<and>
     (\<exists>es ds. map snd (earnings days21_payslip) = map F es \<and>
        map snd (deductions days21_payslip) = map F ds)"
proof (rule allI, rule conjI)
  fix parse
  show "create_payslip_pdf parse (dummy_row(''Total Working Days'' \<mapsto> CNum 21)) =
      Inr days21_payslip"
    by (rule create_payslip_pdf_days21)
  show "total_earn days21_payslip = foldl fadd (F 0) (map snd (earnings days21_payslip)) \<and>
     total_ded days21_payslip = foldl fadd (F 0) (map snd (deductions days21_payslip)) \<and>
     (\<exists>es ds. map snd (earnings days21_payslip) = map F es \<and>
        map snd (deductions days21_payslip) = map F ds)"
    by (rule totals_are_running_sums [OF create_payslip_pdf_days21 [of parse]])
qed

text \<open>
  Claim C1 as stated (each total is the exact sum of its lines) fails for the
  template row with 21 working days: the nine earning amounts drawn add up to
  12520034190092191 / 274877906944, and the total drawn is the float
  391251068440381 / 8589934592 (45547.61904761905), which is 1 / 274877906944 more.
  It fails for the printed two-decimal figures as well: the nine lines printed add
  up to 45,547.61 and the total printed is 45,547.62.
\<close>

theorem total_is_not_the_exact_sum:
  "\<forall>parse.
     create_payslip_pdf parse (dummy_row(''Total Working Days'' \<mapsto> CNum 21)) =
       Inr days21_payslip \<and>
     map snd (earnings days21_payslip) =
       map F [730553484824381 / 34359738368, 730553484824381 / 68719476736,
              770967081857219 / 274877906944, 4700, 1600, 1175, 1175, 1200, 1000] \<and>
     sum_list [730553484824381 / 34359738368, 730553484824381 / 68719476736,
               770967081857219 / 274877906944, 4700, 1600, 1175, 1175, 1200, 1000] =
       (12520034190092191 / 274877906944 :: rat) \<and>
     total_earn days21_payslip = F (391251068440381 / 8589934592) \<and>
     total_earn days21_payslip \<noteq> F (12520034190092191 / 274877906944) \<and>
     map (\<lambda>(label, amount). hundredths amount) (earnings days21_payslip) =
       map Some [2126190, 1063095, 280476, 470000, 160000, 117500, 117500, 120000, 100000] \<and>
     sum_list [2126190, 1063095, 280476, 470000, 160000, 117500, 117500, 120000, 100000] =
       (4554761 :: int) \<and>
     hundredths (total_earn days21_payslip) = Some 4554762"
proof (intro allI conjI)
  fix parse
  show "create_payslip_pdf parse (dummy_row(''Total Working Days'' \<mapsto> CNum 21)) =
      Inr days21_payslip"
    by (rule create_payslip_pdf_days21)
  show "map (\<lambda>(label, amount). hundredths amount) (earnings days21_payslip) =
       map Some [2126190, 1063095, 280476, 470000, 160000, 117500, 117500, 120000, 100000]"
    by (rule printed_lines_do_not_add_up [THEN conjunct1])
  show "hundredths (total_earn days21_payslip) = Some 4554762"
    by (rule printed_lines_do_not_add_up [THEN conjunct2, THEN conjunct2])
qed (simp_all add: days21_payslip_def)

text \<open>
  Claim C2, as amended. In every payslip that is produced, the net salary is the
  total of the earnings minus the total of the deductions, the difference rounded
  to binary64; and the words line is the numeral localizer applied to the integer
  nearest to that net salary (of two equally near, the even one), followed by
  \<open>only\<close>.
\<close>

theorem net_salary_and_words:
  assumes "create_payslip_pdf parse row = Inr p"
  shows "net_salary p = fsub (total_earn p) (total_ded p) \<and>
     (\<exists>e d v n w.
        total_earn p = F e \<and> total_ded p = F d \<and>
        to_float (e - d) = F v \<and> net_salary p = F v \<and>
        py_round (net_salary p) = Inr n \<and>
        \<bar>of_int n - v\<bar> \<le> 1 / 2 \<and> (\<bar>of_int n - v\<bar> = 1 / 2 \<longrightarrow> even n) \<and>
        num_to_words_indian n = Inr w \<and>
        words p = w @ '' only'')"
proof -
  from create_payslip_pdf_parts [OF assms] obtain n w where
    s: "net_salary p = fsub (total_earn p) (total_ded p)" and
    r: "py_round (net_salary p) = Inr n" and
    w: "num_to_words_indian n = Inr w" "words p = w @ '' only''"
    by blast
  from py_round_finite [OF r] obtain v where
    v: "net_salary p = F v" "n = round_half_even v" by blast
  with s have "fsub (total_earn p) (total_ded p) = F v" by simp
  from fsub_finite [OF this] obtain e d where
    ed: "total_earn p = F e" "total_ded p = F d" "to_float (e - d) = F v"
    by blast
  have near: "\<bar>of_int n - v\<bar> \<le> 1 / 2"
    unfolding v(2) by (rule round_half_even_nearest)
  have tie: "\<bar>of_int n - v\<bar> = 1 / 2 \<longrightarrow> even n"
    unfolding v(2) using round_half_even_tie by blast
  from s ed v(1) r near tie w show ?thesis by blast
qed

theorem net_salary_and_words_witness:
  "\<forall>parse.
     create_payslip_pdf parse (dummy_row(''PF'' \<mapsto> CNum 499)) = Inr pf499_payslip \<and>
     net_salary pf499_payslip = F (93167 / 2) \<and>
     words pf499_payslip = ''Forty Six Thousand Five Hundred Eighty Four only'' \<and>
     (\<exists>e d v n w.
        total_earn pf499_payslip = F e \<and> total_ded pf499_payslip = F d \<and>
        to_float (e - d) = F v \<and> net_salary pf499_payslip = F v \<and>
        py_round (net_salary pf499_payslip) = Inr n \<and>
        \<bar>of_int n - v\<bar> \<le> 1 / 2 \<and> (\<bar>of_int n - v\<bar> = 1 / 2 \<longrightarrow> even n) \<and>
        num_to_words_indian n = Inr w \<and>
        words pf499_payslip = w @ '' only'')"
proof (intro allI conjI)
  fix parse
  show "create_payslip_pdf parse (dummy_row(''PF'' \<mapsto> CNum 499)) = Inr pf499_payslip"
    by (rule create_payslip_pdf_pf499)
  show "net_salary pf499_payslip = F (93167 / 2)"
    by (simp add: pf499_payslip_def)
  show "words pf499_payslip = ''Forty Six Thousand Five Hundred Eighty Four only''"
    by (simp add: pf499_payslip_def)
  show "\<exists>e d v n w.
        total_earn pf499_payslip = F e \<and> total_ded pf499_payslip = F d \<and>
        to_float (e - d) = F v \<and> net_salary pf499_payslip = F v \<and>
        py_round (net_salary pf499_payslip) = Inr n \<and>
        \<bar>of_int n - v\<bar> \<le> 1 / 2 \<and> (\<bar>of_int n - v\<bar> = 1 / 2 \<longrightarrow> even n) \<and>
        num_to_words_indian n = Inr w \<and>
        words pf499_payslip = w @ '' only''"
    by (rule conjunct2 [OF net_salary_and_words [OF create_payslip_pdf_pf499 [of parse]]])
qed

text \<open>
  Claim C2 as stated (the net salary is exactly the total of the earnings minus the
  total of the deductions) fails for the template row with a Professional Tax of
  200.1: the totals are the floats 47282.5 and 700.1, and the net salary drawn is
  the float nearest to their difference, not the difference. The words can differ
  too: with a Medical Allowance of 1000001.5 and a Professional Tax of 1e-12 as the
  only amounts, the net salary is the float 1000001.5 and the words are
  \<open>Ten Lakh Two only\<close>, while the exact difference of the two totals lies below
  1000001.5 and is spelled \<open>Ten Lakh One\<close>.
\<close>

theorem net_salary_is_not_the_exact_difference:
  "\<forall>parse.
     create_payslip_pdf parse (dummy_row(''Professional Tax'' \<mapsto> CNum (2001 / 10))) =
       Inr tax2001_payslip \<and>
     total_earn tax2001_payslip = F (94565 / 2) \<and>
     total_ded tax2001_payslip = F (6158144724847821 / 8796093022208) \<and>
     net_salary tax2001_payslip = F (6402236306214093 / 137438953472) \<and>
     (6402236306214093 / 137438953472 :: rat) \<noteq>
       94565 / 2 - 6158144724847821 / 8796093022208 \<and>
     create_payslip_pdf parse
       [''Employee ID'' \<mapsto> CStr ''AA001'', ''FullName'' \<mapsto> CStr ''Arun Kumar'',
        ''Medical Allowance'' \<mapsto> CNum (2000003 / 2),
        ''Professional Tax'' \<mapsto> CNum (1 / 1000000000000)] = Inr tie_payslip \<and>
     total_earn tie_payslip = F (2000003 / 2) \<and>
     total_ded tie_payslip = F (4951760157141521 / 4951760157141521099596496896) \<and>
     net_salary tie_payslip = F (2000003 / 2) \<and>
     words tie_payslip = ''Ten Lakh Two only'' \<and>
     num_to_words_indian
       (round_half_even (2000003 / 2 - 4951760157141521 / 4951760157141521099596496896)) =
       Inr ''Ten Lakh One''"
proof (intro allI conjI)
  fix parse
  show "create_payslip_pdf parse (dummy_row(''Professional Tax'' \<mapsto> CNum (2001 / 10))) =
      Inr tax2001_payslip"
    by (rule create_payslip_pdf_tax2001)
  show "create_payslip_pdf parse
       [''Employee ID'' \<mapsto> CStr ''AA001'', ''FullName'' \<mapsto> CStr ''Arun Kumar'',
        ''Medical Allowance'' \<mapsto> CNum (2000003 / 2),
        ''Professional Tax'' \<mapsto> CNum (1 / 1000000000000)] = Inr tie_payslip"
    by (rule tie_is_rounded_on_the_float)
  show "num_to_words_indian
       (round_half_even (2000003 / 2 - 4951760157141521 / 4951760157141521099596496896)) =
       Inr ''Ten Lakh One''"
    by code_simp
qed (simp_all add: tax2001_payslip_def dummy_payslip_def tie_payslip_def)

text \<open>
  Claim C3. In every payslip that is produced, the earning lines are, in this order:
  Basic, HRA and Special Allowance, each prorated; Medical Allowance, Transport
  Allowance, Professional Allowance, Performance Pay and Courier Reimb, each as read
  from the row; then Performance Bonus, present exactly when its value is greater
  than 0. The deduction lines are, in this order: Professional Tax, always; PF,
  present exactly when its value is greater than 0; the Performance Bonus Recovery
  (drawn under the label \<open>Performance Bonus\<close>), present exactly when its value is
  greater than 0.
\<close>

theorem line_items:
  assumes "create_payslip_pdf parse row = Inr p"
  shows "\<exists>basic hra special pb pt pf pbr.
     prorated_amt (amt_f parse (row_get row ''Basic''))
       (total_working_days p) (actual_payable_days p) = Inr basic \<and>
     prorated_amt (amt_f parse (row_get row ''HRA''))
       (total_working_days p) (actual_payable_days p) = Inr hra \<and>
     prorated_amt (amt_f parse (row_get row ''Special Allowance''))
       (total_working_days p) (actual_payable_days p) = Inr special \<and>
     float_if_notna parse (row_get row ''Performance Bonus'') = Inr pb \<and>
     float_if_notna parse (row_get row ''Professional Tax'') = Inr pt \<and>
     float_if_notna parse (row_get row ''PF'') = Inr pf \<and>
     float_if_notna parse (row_get row ''Performance Bonus Recovery'') = Inr pbr \<and>
     earnings p =
       [(''Basic'', basic), (''HRA'', hra), (''Special Allowance'', special),
        (''Medical Allowance'', amt_f parse (row_get row ''Medical Allowance'')),
        (''Transport Allowance'', amt_f parse (row_get row ''Transport Allowance'')),
        (''Professional Allowance'', amt_f parse (row_get row ''Professional Allowance'')),
        (''Performance Pay'', amt_f parse (row_get row ''Performance Pay'')),
        (''Courier Reimb'', amt_f parse (row_get row ''Courier Reimb''))] @
       (if fgt pb (F 0) then [(''Performance Bonus'', pb)] else []) \<and>
     deductions p =
       [(''Professional Tax'', pt)] @
       (if fgt pf (F 0) then [(''PF (Provident Fund)'', pf)] else []) @
       (if fgt pbr (F 0) then [(''Performance Bonus'', pbr)] else [])"
proof -
  from create_payslip_pdf_parts [OF assms] have
    e: "earnings_block parse row (total_working_days p) (actual_payable_days p) =
          Inr (earnings p, total_earn p)" and
    d: "deductions_block parse row = Inr (deductions p, total_ded p)"
    by blast+
  from e obtain pb where pb:
    "float_if_notna parse (row_get row ''Performance Bonus'') = Inr pb"
    "earnings p =
       map (\<lambda>l. (l, prorated_val (amt_f parse (row_get row l))
                      (total_working_days p) (actual_payable_days p))) prorate_items @
       map (\<lambda>l. (l, amt_f parse (row_get row l))) non_prorate_items @
       (if fgt pb (F 0) then [(''Performance Bonus'', pb)] else [])"
    by (auto simp: earnings_block_def prorate_loop_closed non_prorate_loop_closed
        split: sum.splits if_splits)
  from d obtain pt v pbr where dd:
    "float_if_notna parse (row_get row ''Professional Tax'') = Inr pt"
    "pf_amt parse (row_get row ''PF'') = Inr v"
    "float_if_notna parse (row_get row ''Performance Bonus Recovery'') = Inr pbr"
    "deductions p =
       [(''Professional Tax'', pt)] @
       (if fgt v (F 0) then [(''PF (Provident Fund)'', v)] else []) @
       (if fgt pbr (F 0) then [(''Performance Bonus'', pbr)] else [])"
    by (auto simp: deductions_block_def Let_def split: sum.splits if_splits)
  from pf_amt_float_if_notna [OF dd(2)] obtain pf where pf:
    "float_if_notna parse (row_get row ''PF'') = Inr pf"
    "v = (if fgt pf (F 0) then pf else F 0)"
    by blast
  have ded: "deductions p =
       [(''Professional Tax'', pt)] @
       (if fgt pf (F 0) then [(''PF (Provident Fund)'', pf)] else []) @
       (if fgt pbr (F 0) then [(''Performance Bonus'', pbr)] else [])"
    unfolding dd(4) pf(2) by simp
  show ?thesis
    using pb dd(1,3) pf(1) ded
    by (simp add: prorated_amt_val prorate_items_def non_prorate_items_def)
qed

theorem line_items_witness:
  "\<forall>parse.
   create_payslip_pdf parse dummy_row = Inr dummy_payslip \<and>
   (\<exists>basic hra special pb pt pf pbr.
     prorated_amt (amt_f parse (row_get dummy_row ''Basic''))
       (total_working_days dummy_payslip) (actual_payable_days dummy_payslip) = Inr basic \<and>
     prorated_amt (amt_f parse (row_get dummy_row ''HRA''))
       (total_working_days dummy_payslip) (actual_payable_days dummy_payslip) = Inr hra \<and>
     prorated_amt (amt_f parse (row_get dummy_row ''Special Allowance''))
       (total_working_days dummy_payslip) (actual_payable_days dummy_payslip) = Inr special \<and>
     float_if_notna parse (row_get dummy_row ''Performance Bonus'') = Inr pb \<and>
     float_if_notna parse (row_get dummy_row ''Professional Tax'') = Inr pt \<and>
     float_if_notna parse (row_get dummy_row ''PF'') = Inr pf \<and>
     float_if_notna parse (row_get dummy_row ''Performance Bonus Recovery'') = Inr pbr \<and>
     earnings dummy_payslip =
       [(''Basic'', basic), (''HRA'', hra), (''Special Allowance'', special),
        (''Medical Allowance'', amt_f parse (row_get dummy_row ''Medical Allowance'')),
        (''Transport Allowance'', amt_f parse (row_get dummy_row ''Transport Allowance'')),
        (''Professional Allowance'', amt_f parse (row_get dummy_row ''Professional Allowance'')),
        (''Performance Pay'', amt_f parse (row_get dummy_row ''Performance Pay'')),
        (''Courier Reimb'', amt_f parse (row_get dummy_row ''Courier Reimb''))] @
       (if fgt pb (F 0) then [(''Performance Bonus'', pb)] else []) \<and>
     deductions dummy_payslip =
       [(''Professional Tax'', pt)] @
       (if fgt pf (F 0) then [(''PF (Provident Fund)'', pf)] else []) @
       (if fgt pbr (F 0) then [(''Performance Bonus'', pbr)] else []))"
  by (rule allI,
      rule conjI [OF create_payslip_pdf_dummy line_items [OF create_payslip_pdf_dummy]])

text \<open>
  Claim C4, as amended. The prorated amount is 0 when the total working days are 0
  or less, and otherwise the float \<open>(fullAmount / totalWorkingDays) * payableDays\<close>:
  the quotient rounded to binary64, then its product with the payable days rounded
  to binary64. It is \<open>fullAmount * payableDays / totalWorkingDays\<close> itself whenever
  the quotient and the product need no rounding, and in general, when neither
  underflows nor overflows, it differs from that number by at most the fraction
  \<open>2 ^ -52 + 2 ^ -106\<close> of it. It is 0 when the payable days are 0 and the quotient
  is finite. The division never raises, whatever the three floats are.
\<close>

theorem prorated_amt_rounded:
  "(t \<le> 0 \<longrightarrow> prorated_amt (F a) (F t) (F d) = Inr (F 0)) \<and>
   (0 < t \<longrightarrow> prorated_amt (F a) (F t) (F d) = Inr (fmul (to_float (a / t)) (F d))) \<and>
   (0 < t \<and> to_float (a / t) = F (a / t) \<and> to_float (a * d / t) = F (a * d / t) \<longrightarrow>
      prorated_amt (F a) (F t) (F d) = Inr (F (a * d / t))) \<and>
   (0 < t \<and> to_float (a / t) = F q \<and> to_float (q * d) = F v \<and>
    - 1022 \<le> exponent (a / t) \<and> - 1022 \<le> exponent (q * d) \<longrightarrow>
      prorated_amt (F a) (F t) (F d) = Inr (F v) \<and>
      \<bar>v - a * d / t\<bar> \<le> (2 powi (- 52) + 2 powi (- 106)) * \<bar>a * d / t\<bar>) \<and>
   (0 < t \<and> to_float (a / t) = F q \<longrightarrow> prorated_amt (F a) (F t) (F 0) = Inr (F 0)) \<and>
   (\<exists>r. prorated_amt amt twd apd = Inr r)"
proof (intro conjI impI)
  show "prorated_amt (F a) (F t) (F d) = Inr (F 0)" if "t \<le> 0"
    using that by (simp add: prorated_amt_def)
  show "prorated_amt (F a) (F t) (F d) = Inr (fmul (to_float (a / t)) (F d))" if "0 < t"
    using that by (simp add: prorated_amt_def)
  show "prorated_amt (F a) (F t) (F d) = Inr (F (a * d / t))"
    if "0 < t \<and> to_float (a / t) = F (a / t) \<and> to_float (a * d / t) = F (a * d / t)"
    using that by (simp add: prorated_amt_def)
  show "prorated_amt (F a) (F t) (F d) = Inr (F v)"
    if "0 < t \<and> to_float (a / t) = F q \<and> to_float (q * d) = F v \<and>
      - 1022 \<le> exponent (a / t) \<and> - 1022 \<le> exponent (q * d)"
    using that by (simp add: prorated_amt_def)
  show "\<bar>v - a * d / t\<bar> \<le> (2 powi (- 52) + 2 powi (- 106)) * \<bar>a * d / t\<bar>"
    if h: "0 < t \<and> to_float (a / t) = F q \<and> to_float (q * d) = F v \<and>
      - 1022 \<le> exponent (a / t) \<and> - 1022 \<le> exponent (q * d)"
  proof -
    from h have q: "to_float (a / t) = F q" "- 1022 \<le> exponent (a / t)" and
      v: "to_float (q * d) = F v" "- 1022 \<le> exponent (q * d)"
      by blast+
    have u: "(0::rat) \<le> 2 powi (- 53)" by simp
    have "\<bar>v - a / t * d\<bar> \<le>
        (2 * 2 powi (- 53) + 2 powi (- 53) * 2 powi (- 53)) * \<bar>a / t * d\<bar>"
      by (rule two_roundings [OF u to_float_error [OF q] to_float_error [OF v]])
    moreover have "(2::rat) * 2 powi (- 53) + 2 powi (- 53) * 2 powi (- 53) =
        2 powi (- 52) + 2 powi (- 106)"
      by (simp add: power_int_minus)
    moreover have "a / t * d = a * d / t" by simp
    ultimately show ?thesis by simp
  qed
  show "prorated_amt (F a) (F t) (F 0) = Inr (F 0)" if "0 < t \<and> to_float (a / t) = F q"
    using that by (simp add: prorated_amt_def to_float_zero)
  show "\<exists>r. prorated_amt amt twd apd = Inr r"
    using prorated_amt_val by blast
qed

lemma exact_quotients:
  "to_float (23500 / 20) = F (23500 / 20)" "to_float (23500 * 19 / 20) = F (23500 * 19 / 20)"
  "to_float (3100 / 23) = F (2371120727725635 / 17592186044416)"
  "to_float (2371120727725635 / 17592186044416 * 23) = F (6816972092211201 / 2199023255552)"
  "- 1022 \<le> exponent (3100 / 23)"
  "- 1022 \<le> exponent (2371120727725635 / 17592186044416 * 23)"
  by code_simp+

theorem prorated_amt_rounded_witness:
  "prorated_amt (F 23500) (F 0) (F 19) = Inr (F 0) \<and>
   prorated_amt (F 23500) (F 20) (F 19) = Inr (F 22325) \<and>
   prorated_amt (F 23500) (F 20) (F 0) = Inr (F 0) \<and>
   prorated_amt (F 3100) (F 23) (F 23) = Inr (F (6816972092211201 / 2199023255552)) \<and>
   \<bar>6816972092211201 / 2199023255552 - 3100 * 23 / 23\<bar> \<le>
     (2 powi (- 52) + 2 powi (- 106)) * \<bar>3100 * 23 / (23 :: rat)\<bar>"
  using prorated_amt_rounded [of 0 23500 19]
    prorated_amt_rounded [of 20 23500 19 "23500 / 20"]
    prorated_amt_rounded [of 23 3100 23 "2371120727725635 / 17592186044416"
      "6816972092211201 / 2199023255552"]
    exact_quotients
  by simp

text \<open>
  Claim C4 as stated fails: for 3100 on 23 of 23 days the code returns
  3100.0000000000005, not the full amount, and for 3100 on 15 of 24 days it returns
  1937.4999999999998, not \<open>3100 * 15 / 24 = 1937.5\<close>.
\<close>

theorem prorated_amt_is_rounded_twice:
  "prorated_amt (F 3100) (F 23) (F 23) = Inr (F (6816972092211201 / 2199023255552)) \<and>
   prorated_amt (F 3100) (F 23) (F 23) \<noteq> Inr (F 3100) \<and>
   prorated_amt (F 3100) (F 24) (F 15) = Inr (F (8521215115263999 / 4398046511104)) \<and>
   prorated_amt (F 3100) (F 24) (F 15) \<noteq> Inr (F (3100 * 15 / 24))"
  by code_simp

text \<open>
  Claim C9 fails on the code. A text that \<open>float\<close> rejects, such as \<open>abc\<close>, is read
  as 0 in the cells the two loops read (Basic here, under \<open>try ... except\<close>), but in
  the Performance Bonus, Professional Tax, PF and Performance Bonus Recovery cells
  (lines 411, 431, 437 and 444, no \<open>try\<close>) the \<open>ValueError\<close> leaves
  \<open>create_payslip_pdf\<close>: no payslip is produced for the template row with \<open>abc\<close> in
  one of these cells. This holds for every \<open>float\<close> that rejects \<open>abc\<close>.
\<close>

theorem unparseable_deduction_raises:
  "\<forall>parse.
     amt_f (parse(''abc'' := None)) (CStr ''abc'') = F 0 \<and>
     create_payslip_pdf (parse(''abc'' := None))
       (dummy_row(''Basic'' \<mapsto> CStr ''abc'')) = Inr basic_abc_payslip \<and>
     create_payslip_pdf (parse(''abc'' := None))
       (dummy_row(''Performance Bonus'' \<mapsto> CStr ''abc'')) = Inl ValueError \<and>
     create_payslip_pdf (parse(''abc'' := None))
       (dummy_row(''Professional Tax'' \<mapsto> CStr ''abc'')) = Inl ValueError \<and>
     create_payslip_pdf (parse(''abc'' := None))
       (dummy_row(''PF'' \<mapsto> CStr ''abc'')) = Inl ValueError \<and>
     create_payslip_pdf (parse(''abc'' := None))
       (dummy_row(''Performance Bonus Recovery'' \<mapsto> CStr ''abc'')) = Inl ValueError"
proof (intro allI conjI)
  fix parse :: parser
  show "amt_f (parse(''abc'' := None)) (CStr ''abc'') = F 0"
    by (simp add: amt_f_def float_if_notna_def)
  show "create_payslip_pdf (parse(''abc'' := None))
       (dummy_row(''Basic'' \<mapsto> CStr ''abc'')) = Inr basic_abc_payslip"
    by code_simp
  show "create_payslip_pdf (parse(''abc'' := None))
       (dummy_row(''Performance Bonus'' \<mapsto> CStr ''abc'')) = Inl ValueError"
    by code_simp
  show "create_payslip_pdf (parse(''abc'' := None))
       (dummy_row(''Professional Tax'' \<mapsto> CStr ''abc'')) = Inl ValueError"
    by code_simp
  show "create_payslip_pdf (parse(''abc'' := None))
       (dummy_row(''PF'' \<mapsto> CStr ''abc'')) = Inl ValueError"
    by code_simp
  show "create_payslip_pdf (parse(''abc'' := None))
       (dummy_row(''Performance Bonus Recovery'' \<mapsto> CStr ''abc'')) = Inl ValueError"
    by code_simp
qed

text \<open>
  Claim C10. When \<open>float\<close> raises on the Total Working Days cell or on the Actual
  Payable Days cell, both day counts are 0.0; the payslip is then computed exactly as
  for the same row with 0 in both cells, so the failure of the day cell raises
  nothing; and in the payslip produced the loss of pay days are 0, the lines Basic,
  HRA and Special Allowance are 0, and the five lines after them carry the amounts
  read from the row.
\<close>

theorem days_parse_failure:
  assumes "isl (py_float parse (row_get row ''Total Working Days'')) \<or>
           isl (py_float parse (row_get row ''Actual Payable Days''))"
  shows "read_days parse row = Inr (F 0, F 0) \<and>
     create_payslip_pdf parse row =
       create_payslip_pdf parse
         (row(''Total Working Days'' \<mapsto> CNum 0, ''Actual Payable Days'' \<mapsto> CNum 0)) \<and>
     (\<forall>p. create_payslip_pdf parse row = Inr p \<longrightarrow>
        total_working_days p = F 0 \<and> actual_payable_days p = F 0 \<and>
        loss_of_pay_days p = F 0 \<and> days_payable p = F 0 \<and>
        take 8 (earnings p) =
          [(''Basic'', F 0), (''HRA'', F 0), (''Special Allowance'', F 0),
           (''Medical Allowance'', amt_f parse (row_get row ''Medical Allowance'')),
           (''Transport Allowance'', amt_f parse (row_get row ''Transport Allowance'')),
           (''Professional Allowance'', amt_f parse (row_get row ''Professional Allowance'')),
           (''Performance Pay'', amt_f parse (row_get row ''Performance Pay'')),
           (''Courier Reimb'', amt_f parse (row_get row ''Courier Reimb''))])"
proof (intro conjI allI impI)
  show rd: "read_days parse row = Inr (F 0, F 0)"
    by (rule read_days_failure [OF assms])
  show "create_payslip_pdf parse row =
       create_payslip_pdf parse
         (row(''Total Working Days'' \<mapsto> CNum 0, ''Actual Payable Days'' \<mapsto> CNum 0))"
    using create_payslip_pdf_zero_days [OF rd] by (simp add: zero_days_def)
  fix p
  assume p: "create_payslip_pdf parse row = Inr p"
  from create_payslip_pdf_parts [OF p] rd have
    days: "total_working_days p = F 0" "actual_payable_days p = F 0" and
    rest: "loss_of_pay_days p = fsub (total_working_days p) (actual_payable_days p)"
      "days_payable p = actual_payable_days p" and
    e: "earnings_block parse row (total_working_days p) (actual_payable_days p) =
          Inr (earnings p, total_earn p)"
    by auto
  show "total_working_days p = F 0" "actual_payable_days p = F 0" by (fact days)+
  show "loss_of_pay_days p = F 0" "days_payable p = F 0"
    using rest days by (simp_all add: to_float_zero)
  from earnings_block_lines [OF e] obtain rest where "earnings p =
          [(''Basic'', F 0), (''HRA'', F 0), (''Special Allowance'', F 0),
           (''Medical Allowance'', amt_f parse (row_get row ''Medical Allowance'')),
           (''Transport Allowance'', amt_f parse (row_get row ''Transport Allowance'')),
           (''Professional Allowance'', amt_f parse (row_get row ''Professional Allowance'')),
           (''Performance Pay'', amt_f parse (row_get row ''Performance Pay'')),
           (''Courier Reimb'', amt_f parse (row_get row ''Courier Reimb''))] @ rest"
    unfolding days
    by (auto simp: prorate_items_def non_prorate_items_def prorated_val_no_days)
  then show "take 8 (earnings p) =
          [(''Basic'', F 0), (''HRA'', F 0), (''Special Allowance'', F 0),
           (''Medical Allowance'', amt_f parse (row_get row ''Medical Allowance'')),
           (''Transport Allowance'', amt_f parse (row_get row ''Transport Allowance'')),
           (''Professional Allowance'', amt_f parse (row_get row ''Professional Allowance'')),
           (''Performance Pay'', amt_f parse (row_get row ''Performance Pay'')),
           (''Courier Reimb'', amt_f parse (row_get row ''Courier Reimb''))]"
    by simp
qed

theorem days_parse_failure_witness:
  "\<forall>parse.
   isl (py_float (parse(''abc'' := None))
     (row_get (dummy_row(''Total Working Days'' \<mapsto> CStr ''abc'')) ''Total Working Days'')) \<and>
   create_payslip_pdf (parse(''abc'' := None))
     (dummy_row(''Total Working Days'' \<mapsto> CStr ''abc'')) = Inr no_days_payslip \<and>
   read_days (parse(''abc'' := None)) (dummy_row(''Total Working Days'' \<mapsto> CStr ''abc'')) =
     Inr (F 0, F 0) \<and>
   loss_of_pay_days no_days_payslip = F 0 \<and>
   take 3 (earnings no_days_payslip) =
     [(''Basic'', F 0), (''HRA'', F 0), (''Special Allowance'', F 0)]"
proof (rule allI)
  fix parse :: parser
  show "isl (py_float (parse(''abc'' := None))
     (row_get (dummy_row(''Total Working Days'' \<mapsto> CStr ''abc'')) ''Total Working Days'')) \<and>
   create_payslip_pdf (parse(''abc'' := None))
     (dummy_row(''Total Working Days'' \<mapsto> CStr ''abc'')) = Inr no_days_payslip \<and>
   read_days (parse(''abc'' := None)) (dummy_row(''Total Working Days'' \<mapsto> CStr ''abc'')) =
     Inr (F 0, F 0) \<and>
   loss_of_pay_days no_days_payslip = F 0 \<and>
   take 3 (earnings no_days_payslip) =
     [(''Basic'', F 0), (''HRA'', F 0), (''Special Allowance'', F 0)]"
    using days_parse_failure [OF disjI1 [OF text_days_cell [of parse]]]
      text_days_cell [of parse] create_payslip_pdf_no_days [of parse]
    by (simp add: no_days_payslip_def)
qed

subsection \<open>Claims on the months to process\<close>

text \<open>
  Claim C7. With \<open>SEND_ALL_PAST_PAYSLIPS\<close> set, and for a joining date (a timestamp
  whose time of day is not later than the clock's: a date cell is read as midnight),
  the months to process are the first days of the consecutive calendar months from
  the joining month up to and including the current month, in ascending order, one
  entry per month; the pay periods are their month names and years. For a joining
  date of 27 August 2025 and a clock of 15 November 2025 these are August,
  September, October and November 2025.
\<close>

theorem all_past_periods:
  assumes "valid_datetime j" "valid_datetime now" "tod j \<le> tod now"
  shows "months_to_process True j now =
       map (first_of_month (tod j)) [month_index j ..< Suc (month_index now)] \<and>
     pay_periods (months_to_process True j now) =
       map (\<lambda>k. (month_name ! (k mod 12 + 1), k div 12))
         [month_index j ..< Suc (month_index now)]"
  using months_to_process_eq [OF assms]
  by (simp add: pay_periods_def first_of_month_def comp_def del: upt_Suc)

definition joined :: datetime where
  "joined = \<lparr>year = 2025, month = 8, day = 27, tod = 0\<rparr>"

definition today :: datetime where
  "today = \<lparr>year = 2025, month = 11, day = 15, tod = 51785000000\<rparr>"

lemma valid_examples: "valid_datetime joined" "valid_datetime today" "tod joined \<le> tod today"
  by (simp_all add: valid_datetime_def joined_def today_def days_in_month_def)

theorem all_past_periods_witness:
  "valid_datetime joined \<and> valid_datetime today \<and> tod joined \<le> tod today \<and>
   pay_periods (months_to_process True joined today) =
     [(''August'', 2025), (''September'', 2025), (''October'', 2025), (''November'', 2025)]"
proof -
  have "[month_index joined ..< Suc (month_index today)] = [24307, 24308, 24309, 24310]"
    by (simp add: month_index_def joined_def today_def upt_rec del: upt_Suc)
  with conjunct2 [OF all_past_periods [OF valid_examples]]
  have "pay_periods (months_to_process True joined today) =
     [(''August'', 2025), (''September'', 2025), (''October'', 2025), (''November'', 2025)]"
    by (simp add: month_name_def del: upt_Suc)
  with valid_examples show ?thesis by simp
qed

text \<open>
  Claim C8, as amended. With \<open>SEND_ALL_PAST_PAYSLIPS\<close> set, a joining date in a
  calendar month after the current month gives no month to process.
\<close>

theorem later_joining_month_is_empty:
  assumes "year now < year j \<or> (year now = year j \<and> month now < month j)"
  shows "months_to_process True j now = []"
proof -
  have "\<not> dt_le (j\<lparr>day := 1\<rparr>) (now\<lparr>day := 1\<rparr>)"
    using assms by (auto simp: dt_le_def)
  then show ?thesis by (simp add: months_to_process_def)
qed

theorem later_joining_month_is_empty_witness:
  "year today < year (joined\<lparr>year := 2026\<rparr>) \<and>
   months_to_process True (joined\<lparr>year := 2026\<rparr>) today = []"
  using later_joining_month_is_empty [of today "joined\<lparr>year := 2026\<rparr>"]
  by (simp add: joined_def today_def)

text \<open>
  Claim C8 as stated (every joining date after the current date gives the empty
  sequence) fails: a joining date later in the current month gives the current
  month, since both dates are moved to the first of their month before they are
  compared; and without \<open>SEND_ALL_PAST_PAYSLIPS\<close> the current month is the result
  whatever the joining date is.
\<close>

theorem later_joining_day_is_not_empty:
  "\<not> dt_le (today\<lparr>day := 27, tod := 0\<rparr>) today \<and>
   pay_periods (months_to_process True (today\<lparr>day := 27, tod := 0\<rparr>) today) =
     [(''November'', 2025)] \<and>
   \<not> dt_le (joined\<lparr>year := 2026\<rparr>) today \<and>
   pay_periods (months_to_process False (joined\<lparr>year := 2026\<rparr>) today) =
     [(''November'', 2025)]"
  by (simp add: dt_le_def today_def joined_def months_to_process_def next_start_eq
      pay_periods_def month_name_def)

text \<open>
  The comparison \<open>start <= end\<close> is between timestamps: a joining timestamp with a
  time of day later than the clock's loses the current month.
\<close>

lemma later_time_of_day_drops_current_month:
  "pay_periods (months_to_process True (joined\<lparr>tod := 64800000000\<rparr>) today) =
     [(''August'', 2025), (''September'', 2025), (''October'', 2025)]"
  by (simp add: dt_le_def today_def joined_def months_to_process_def next_start_eq
      pay_periods_def month_name_def)

end
